theory Spec2Isabelle
  imports Complex_Main "HOL-Library.Log_Nat" "HOL-Library.Multiset" "HOL-Library.Sublist"
begin

section \<open>Scan status management (lib/scan-status)\<close>

text \<open>
  JavaScript numbers are IEEE 754 binary64 values. A finite double is modelled by the
  rational number it denotes, and an arithmetic operation of the program by the exact
  operation followed by \<open>double\<close>, the rounding to the nearest double (a tie goes to the
  even significand). \<open>NaN\<close>, the infinities and the sign of zero are not modelled: the
  operands of the program (progress values and counts) are finite and far below the
  overflow threshold, and it divides by the constant 100 and by the length of a list
  that is not empty. Dates are milliseconds since the epoch. \<open>console.log\<close> calls do not
  change the state that any other function reads and are left out.
\<close>

type_synonym number = rat

text \<open>
  The binade of \<open>x \<noteq> 0\<close> is the integer \<open>e\<close> with \<open>2 powi e \<le> \<bar>x\<bar>\<close> and
  \<open>\<bar>x\<bar> < 2 powi (e + 1)\<close>. The difference of the bit lengths of the numerator and the
  denominator is \<open>e\<close> or \<open>e + 1\<close>.
\<close>

definition binade :: "rat \<Rightarrow> int" where
  "binade x =
     (let d = bitlen (fst (quotient_of \<bar>x\<bar>)) - bitlen (snd (quotient_of \<bar>x\<bar>))
      in if 2 powi d \<le> \<bar>x\<bar> then d else d - 1)"

definition roundTiesToEven :: "rat \<Rightarrow> int" where
  "roundTiesToEven m =
     (let f = \<lfloor>m\<rfloor>; r = m - of_int f
      in if r < 1 / 2 then f else if 1 / 2 < r then f + 1 else if even f then f else f + 1)"

text \<open>
  The spacing of the doubles around \<open>x\<close>: 53 bits of significand in the normal range,
  and \<open>2 powi (- 1074)\<close> below \<open>2 powi (- 1022)\<close>.
\<close>

definition ulp :: "rat \<Rightarrow> rat" where
  "ulp x = 2 powi (max (binade x) (- 1022) - 52)"

definition double :: "rat \<Rightarrow> number" where
  "double x = (if x = 0 then 0 else of_int (roundTiesToEven (x / ulp x)) * ulp x)"

text \<open>The operators \<open>+\<close>, \<open>-\<close>, \<open>*\<close> and \<open>/\<close> on numbers.\<close>

definition number_add :: "number \<Rightarrow> number \<Rightarrow> number" where
  "number_add x y = double (x + y)"

definition number_sub :: "number \<Rightarrow> number \<Rightarrow> number" where
  "number_sub x y = double (x - y)"

definition number_mul :: "number \<Rightarrow> number \<Rightarrow> number" where
  "number_mul x y = double (x * y)"

definition number_div :: "number \<Rightarrow> number \<Rightarrow> number" where
  "number_div x y = double (x / y)"



datatype ScanPhase =
  Idle | Fetching | Processing | Clustering | Summarizing | Saving | Complete | Error

text \<open>
  \<open>interface ScanStatus\<close>: \<open>phase\<close> and \<open>message\<close> are required, every other field
  is optional (\<open>None\<close> is the absent, or \<open>undefined\<close>, field).
\<close>

record ScanStatus =
  phase :: ScanPhase
  message :: string
  progress :: "number option"
  startedAt :: "int option"
  completedAt :: "int option"
  error :: "string option"
  itemCount :: "nat option"

text \<open>
  \<open>Partial<ScanStatus>\<close>: every key may be missing from the object. The outer
  \<open>option\<close> says whether the key is an own property of the update; for the optional
  fields the inner \<open>option\<close> is the value, which may itself be \<open>undefined\<close>.
\<close>

record ScanStatusUpdate =
  u_phase :: "ScanPhase option"
  u_message :: "string option"
  u_progress :: "number option option"
  u_startedAt :: "int option option"
  u_completedAt :: "int option option"
  u_error :: "string option option"
  u_itemCount :: "nat option option"

text \<open>One property of the object spread \<open>{ ...a, ...b }\<close>: the later object wins.\<close>

definition spread_field :: "'a \<Rightarrow> 'a option \<Rightarrow> 'a" where
  "spread_field old upd = (case upd of None \<Rightarrow> old | Some v \<Rightarrow> v)"

definition spread :: "ScanStatus \<Rightarrow> ScanStatusUpdate \<Rightarrow> ScanStatus" where
  "spread cur u =
     \<lparr> phase = spread_field (phase cur) (u_phase u),
       message = spread_field (message cur) (u_message u),
       progress = spread_field (progress cur) (u_progress u),
       startedAt = spread_field (startedAt cur) (u_startedAt u),
       completedAt = spread_field (completedAt cur) (u_completedAt u),
       error = spread_field (error cur) (u_error u),
       itemCount = spread_field (itemCount cur) (u_itemCount u) \<rparr>"

text \<open>The update with no key at all, \<open>{}\<close>.\<close>

definition no_update :: ScanStatusUpdate where
  "no_update =
     \<lparr> u_phase = None, u_message = None, u_progress = None, u_startedAt = None,
       u_completedAt = None, u_error = None, u_itemCount = None \<rparr>"

text \<open>
  \<open>Map<string, { progress; message }>\<close>: a JavaScript \<open>Map\<close> iterates in insertion
  order, and \<open>set\<close> on a key that is already there keeps the key's place. The map is
  an association list with that discipline.
\<close>

record RegionInfo =
  rp_progress :: number
  rp_message :: string

type_synonym RegionMap = "(string \<times> RegionInfo) list"

fun Map_set :: "'k \<Rightarrow> 'v \<Rightarrow> ('k \<times> 'v) list \<Rightarrow> ('k \<times> 'v) list" where
  "Map_set k v [] = [(k, v)]"
| "Map_set k v ((k', v') # m) =
     (if k' = k then (k, v) # m else (k', v') # Map_set k v m)"

fun Map_get :: "('k \<times> 'v) list \<Rightarrow> 'k \<Rightarrow> 'v option" where
  "Map_get [] k = None"
| "Map_get ((k', v') # m) k = (if k' = k then Some v' else Map_get m k)"

text \<open>
  The module's variables: \<open>currentStatus\<close>, \<open>regionProgress\<close> and \<open>totalRegions\<close>.
  (\<open>scanPromise\<close> is a handle on the running scan and is read by none of the functions
  modelled here.)
\<close>

record TrackerState =
  currentStatus :: ScanStatus
  regionProgress :: RegionMap
  totalRegions :: nat

definition initialTracker :: TrackerState where
  "initialTracker =
     \<lparr> currentStatus =
         \<lparr> phase = Idle, message = ''Ready'', progress = None, startedAt = None,
           completedAt = None, error = None, itemCount = None \<rparr>,
       regionProgress = [],
       totalRegions = 0 \<rparr>"

definition getScanStatus :: "TrackerState \<Rightarrow> ScanStatus" where
  "getScanStatus s = currentStatus s"

definition updateScanStatus :: "ScanStatusUpdate \<Rightarrow> TrackerState \<Rightarrow> TrackerState" where
  "updateScanStatus u s = s\<lparr>currentStatus := spread (currentStatus s) u\<rparr>"

definition initRegionTracking :: "string list \<Rightarrow> TrackerState \<Rightarrow> TrackerState" where
  "initRegionTracking regions s =
     s\<lparr> regionProgress :=
          fold (\<lambda>region m. Map_set region \<lparr>rp_progress = 0, rp_message = ''Starting...''\<rparr> m)
            regions [],
        totalRegions := length regions \<rparr>"

text \<open>
  The loop of \<open>updateRegionProgress\<close> over the map: the pair is
  \<open>(minProgress, slowestRegion)\<close>, started at \<open>(100, '')\<close>; an entry replaces it only
  when its progress is strictly smaller.
\<close>

definition slowest_step :: "string \<times> RegionInfo \<Rightarrow> number \<times> string \<Rightarrow> number \<times> string" where
  "slowest_step e acc =
     (if rp_progress (snd e) < fst acc then (rp_progress (snd e), fst e) else acc)"

definition slowest_scan :: "RegionMap \<Rightarrow> number \<times> string" where
  "slowest_scan m = fold slowest_step m (100, '''')"

text \<open>
  \<open>slowestInfo?.message || message\<close>: the stored message of the slowest region, unless
  the region is not in the map or its message is the empty string.
\<close>

definition message_or :: "RegionInfo option \<Rightarrow> string \<Rightarrow> string" where
  "message_or slowestInfo msg =
     (case slowestInfo of
        None \<Rightarrow> msg
      | Some i \<Rightarrow> if rp_message i = [] then msg else rp_message i)"

definition regionLabel :: "nat \<Rightarrow> string \<Rightarrow> string" where
  "regionLabel totalRegions' slowestRegion =
     (if totalRegions' > 1 then '' ('' @ slowestRegion @ '')'' else [])"

definition updateRegionProgress :: "string \<Rightarrow> number \<Rightarrow> string \<Rightarrow> TrackerState \<Rightarrow> TrackerState" where
  "updateRegionProgress region prog msg s =
     (let m = Map_set region \<lparr>rp_progress = prog, rp_message = msg\<rparr> (regionProgress s);
          s1 = s\<lparr>regionProgress := m\<rparr>
      in if length m > 0 then
           (let minProgress = fst (slowest_scan m);
                slowestRegion = snd (slowest_scan m);
                slowestInfo = Map_get m slowestRegion
            in updateScanStatus
                 (no_update\<lparr> u_phase := Some Fetching,
                     u_message :=
                       Some (message_or slowestInfo msg @ regionLabel (totalRegions s1) slowestRegion),
                     u_progress := Some (Some minProgress) \<rparr>)
                 s1)
         else s1)"

definition clearRegionTracking :: "TrackerState \<Rightarrow> TrackerState" where
  "clearRegionTracking s = s\<lparr>regionProgress := [], totalRegions := 0\<rparr>"

text \<open>
  \<open>PHASE_PROGRESS\<close> has five keys; \<open>keyof typeof PHASE_PROGRESS\<close> is the type of the
  first argument of \<open>calculatePhaseProgress\<close>.
\<close>

datatype ProgressPhase = PFetching | PProcessing | PClustering | PSummarizing | PSaving

record Range =
  range_start :: number
  range_end :: number

fun PHASE_PROGRESS :: "ProgressPhase \<Rightarrow> Range" where
  "PHASE_PROGRESS PFetching = \<lparr>range_start = 0, range_end = 50\<rparr>"
| "PHASE_PROGRESS PProcessing = \<lparr>range_start = 50, range_end = 60\<rparr>"
| "PHASE_PROGRESS PClustering = \<lparr>range_start = 60, range_end = 70\<rparr>"
| "PHASE_PROGRESS PSummarizing = \<lparr>range_start = 70, range_end = 90\<rparr>"
| "PHASE_PROGRESS PSaving = \<lparr>range_start = 90, range_end = 100\<rparr>"

text \<open>
  \<open>Math.round\<close>: the nearest integer, an exact half rounded towards plus infinity. The
  function is exact on its argument, a double.
\<close>

definition Math_round :: "number \<Rightarrow> int" where
  "Math_round x = \<lfloor>x + 1 / 2\<rfloor>"

text \<open>
  \<open>Math.round(range.start + (stepProgress / 100) * (range.end - range.start))\<close>, each
  operation rounded to a double, in the order of evaluation.
\<close>

definition calculatePhaseProgress :: "ProgressPhase \<Rightarrow> number \<Rightarrow> int" where
  "calculatePhaseProgress ph stepProgress =
     (let rng = PHASE_PROGRESS ph
      in Math_round
           (number_add (range_start rng)
              (number_mul (number_div stepProgress 100)
                 (number_sub (range_end rng) (range_start rng)))))"

definition isScanInProgress :: "TrackerState \<Rightarrow> bool" where
  "isScanInProgress s =
     (phase (currentStatus s) \<noteq> Idle \<and> phase (currentStatus s) \<noteq> Complete
      \<and> phase (currentStatus s) \<noteq> Error)"

section \<open>The worker pool (lib/worker-pool)\<close>

text \<open>
  Modelled from the spec: \<open>workerPoolCollect\<close> (lib/worker-pool) is not among the
  sources of the repository; only its three call sites in the search adapter are. The
  model follows section 4.1 of the specification: the items are numbered in input order
  and queued; at most \<open>concurrency\<close> of them are outstanding; as soon as one outstanding
  invocation settles, the next pending item is started; a success adds its output to the
  result collection (in completion order), a failure calls \<open>onError\<close> (if provided) with
  the item, its index and the error, and adds nothing; the call resolves when every item
  has settled.

  Which outstanding invocation settles next is decided by the scheduler and the network,
  not by the pool: the model takes it from a schedule, a list of choices, and every
  theorem about the pool holds for every schedule. An invocation reads and writes the
  caller's state (the closures of the call sites do) when it settles.
\<close>

datatype ('i, 'o, 'e) settled =
  Succeeded nat 'i 'o
| Failed nat 'i 'e

record ('i, 'o, 'e, 's) pool =
  pending :: "(nat \<times> 'i) list"
  inflight :: "(nat \<times> 'i) list"
  settledLog :: "('i, 'o, 'e) settled list"
  shared :: 's

type_synonym ('i, 'o, 'e, 's) worker_fn = "'i \<Rightarrow> nat \<Rightarrow> 's \<Rightarrow> ('e + 'o) \<times> 's"
type_synonym ('i, 'e, 's) on_error_fn = "'i \<Rightarrow> nat \<Rightarrow> 'e \<Rightarrow> 's \<Rightarrow> 's"

text \<open>Start pending items while fewer than \<open>concurrency\<close> are outstanding.\<close>

definition pool_refill :: "nat \<Rightarrow> ('i, 'o, 'e, 's) pool \<Rightarrow> ('i, 'o, 'e, 's) pool" where
  "pool_refill concurrency p =
     (let n = concurrency - length (inflight p)
      in p\<lparr> pending := drop n (pending p), inflight := inflight p @ take n (pending p) \<rparr>)"

text \<open>The outstanding invocation number \<open>k\<close> settles.\<close>

definition pool_settle ::
  "('i, 'o, 'e, 's) worker_fn \<Rightarrow> ('i, 'e, 's) on_error_fn option \<Rightarrow> nat
   \<Rightarrow> ('i, 'o, 'e, 's) pool \<Rightarrow> ('i, 'o, 'e, 's) pool" where
  "pool_settle worker onError k p =
     (let job = inflight p ! k;
          rest = take k (inflight p) @ drop (Suc k) (inflight p);
          outcome = worker (snd job) (fst job) (shared p)
      in case fst outcome of
           Inr out \<Rightarrow>
             p\<lparr> inflight := rest,
                settledLog := settledLog p @ [Succeeded (fst job) (snd job) out],
                shared := snd outcome \<rparr>
         | Inl e \<Rightarrow>
             p\<lparr> inflight := rest,
                settledLog := settledLog p @ [Failed (fst job) (snd job) e],
                shared := (case onError of
                             None \<Rightarrow> snd outcome
                           | Some h \<Rightarrow> h (snd job) (fst job) e (snd outcome)) \<rparr>)"

definition next_choice :: "nat list \<Rightarrow> nat \<Rightarrow> nat" where
  "next_choice schedule n = (case schedule of [] \<Rightarrow> 0 | c # _ \<Rightarrow> c mod n)"

function pool_loop ::
  "nat \<Rightarrow> ('i, 'o, 'e, 's) worker_fn \<Rightarrow> ('i, 'e, 's) on_error_fn option \<Rightarrow> nat list
   \<Rightarrow> ('i, 'o, 'e, 's) pool \<Rightarrow> ('i, 'o, 'e, 's) pool" where
  "pool_loop concurrency worker onError schedule p =
     (if inflight (pool_refill concurrency p) = [] then pool_refill concurrency p
      else pool_loop concurrency worker onError (tl schedule)
             (pool_settle worker onError
                (next_choice schedule (length (inflight (pool_refill concurrency p))))
                (pool_refill concurrency p)))"
  by pat_completeness auto

lemma pool_refill_size:
  "length (pending (pool_refill c p)) + length (inflight (pool_refill c p))
     = length (pending p) + length (inflight p)"
  by (simp add: pool_refill_def Let_def)

lemma pool_settle_size:
  "k < length (inflight p) \<Longrightarrow>
   length (pending (pool_settle w h k p)) + length (inflight (pool_settle w h k p))
     < length (pending p) + length (inflight p)"
  by (cases k) (auto simp: pool_settle_def Let_def split: sum.splits)

lemma next_choice_less: "0 < n \<Longrightarrow> next_choice schedule n < n"
  by (simp add: next_choice_def split: list.splits)

termination pool_loop
proof (relation "measure (\<lambda>(c, w, h, sch, p). length (pending p) + length (inflight p))")
  show "wf (measure (\<lambda>(c, w, h, sch, p). length (pending p) + length (inflight p)))"
    by simp
next
  fix concurrency :: nat
    and worker :: "('i, 'o, 'e, 's) worker_fn"
    and onError :: "('i, 'e, 's) on_error_fn option"
    and schedule :: "nat list"
    and p :: "('i, 'o, 'e, 's) pool"
  assume ne: "inflight (pool_refill concurrency p) \<noteq> []"
  let ?q = "pool_refill concurrency p"
  have "next_choice schedule (length (inflight ?q)) < length (inflight ?q)"
    using ne by (simp add: next_choice_less)
  then have "length (pending (pool_settle worker onError (next_choice schedule (length (inflight ?q))) ?q))
        + length (inflight (pool_settle worker onError (next_choice schedule (length (inflight ?q))) ?q))
      < length (pending ?q) + length (inflight ?q)"
    by (rule pool_settle_size)
  then show "((concurrency, worker, onError, tl schedule,
        pool_settle worker onError (next_choice schedule (length (inflight ?q))) ?q),
       (concurrency, worker, onError, schedule, p))
      \<in> measure (\<lambda>(c, w, h, sch, p). length (pending p) + length (inflight p))"
    by (simp add: pool_refill_size)
qed

declare pool_loop.simps [simp del]

fun enumerate_from :: "nat \<Rightarrow> 'i list \<Rightarrow> (nat \<times> 'i) list" where
  "enumerate_from n [] = []"
| "enumerate_from n (x # xs) = (n, x) # enumerate_from (Suc n) xs"

fun settled_output :: "('i, 'o, 'e) settled \<Rightarrow> 'o list" where
  "settled_output (Succeeded k i out) = [out]"
| "settled_output (Failed k i e) = []"

fun settled_error :: "('i, 'o, 'e) settled \<Rightarrow> ('i \<times> nat \<times> 'e) list" where
  "settled_error (Succeeded k i out) = []"
| "settled_error (Failed k i e) = [(i, k, e)]"

fun settled_index :: "('i, 'o, 'e) settled \<Rightarrow> nat" where
  "settled_index (Succeeded k i out) = k"
| "settled_index (Failed k i e) = k"

fun settled_item :: "('i, 'o, 'e) settled \<Rightarrow> 'i" where
  "settled_item (Succeeded k i out) = i"
| "settled_item (Failed k i e) = i"

text \<open>The run of the pool over \<open>items\<close>, from the caller's state \<open>s\<close>.\<close>

definition pool_run ::
  "'i list \<Rightarrow> ('i, 'o, 'e, 's) worker_fn \<Rightarrow> nat \<Rightarrow> ('i, 'e, 's) on_error_fn option
   \<Rightarrow> nat list \<Rightarrow> 's \<Rightarrow> ('i, 'o, 'e, 's) pool" where
  "pool_run items worker concurrency onError schedule s =
     pool_loop concurrency worker onError schedule
       \<lparr> pending = enumerate_from 0 items, inflight = [], settledLog = [], shared = s \<rparr>"

text \<open>
  The returned collection, and the failures in completion order: the arguments of the
  calls that the pool makes to \<open>onError\<close> (when the caller provides one).
\<close>

definition pool_results :: "('i, 'o, 'e, 's) pool \<Rightarrow> 'o list" where
  "pool_results p = concat (map settled_output (settledLog p))"

definition pool_error_calls :: "('i, 'o, 'e, 's) pool \<Rightarrow> ('i \<times> nat \<times> 'e) list" where
  "pool_error_calls p = concat (map settled_error (settledLog p))"

definition workerPoolCollect ::
  "'i list \<Rightarrow> ('i, 'o, 'e, 's) worker_fn \<Rightarrow> nat \<Rightarrow> ('i, 'e, 's) on_error_fn option
   \<Rightarrow> nat list \<Rightarrow> 's \<Rightarrow> 'o list \<times> 's" where
  "workerPoolCollect items worker concurrency onError schedule s =
     (let p = pool_run items worker concurrency onError schedule s
      in (pool_results p, shared p))"

section \<open>The search adapter (adapters/search.ts)\<close>

subsection \<open>Data\<close>

text \<open>
  \<open>ContentCategory\<close> and the lens are string unions in the source and stay strings
  here. An \<open>Error\<close> is its message.
\<close>

type_synonym ContentCategory = string

record SerpResult =
  url :: string
  title :: string
  snippet :: string
  position :: int

record DirectUrl =
  d_url :: string
  d_name :: string

record SearchQuery =
  q_query :: string
  q_category :: ContentCategory
  q_language :: string

record UrlToScrape =
  us_url :: string
  us_title :: string
  us_snippet :: string
  us_category :: ContentCategory

record ScrapeResult =
  sr_content :: string
  sr_imageUrl :: "string option"
  sr_title :: "string option"

record ScrapedContent =
  sc_url :: string
  sc_content :: string
  sc_imageUrl :: "string option"
  sc_title :: "string option"
  sc_category :: ContentCategory

record ExtractedContent =
  ex_title :: string
  ex_summary :: string
  ex_category :: ContentCategory
  ex_location :: "string option"
  ex_articleUrl :: "string option"
  ex_publishedAt :: "int option"
  ex_engagement :: number
  ex_imageUrl :: "string option"
  ex_moodScore :: "number option"
  ex_eventDate :: "string option"

record Coords =
  lat :: number
  lng :: number
  country :: "string option"

record ItemLocation =
  loc_name :: string
  loc_lat :: number
  loc_lng :: number
  loc_country :: string
  loc_region :: string

record NormalizedItem =
  ni_id :: string
  ni_source :: string
  ni_lens :: string
  ni_language :: string
  ni_title :: string
  ni_text :: string
  ni_createdAt :: int
  ni_url :: string
  ni_engagement :: number
  ni_context :: string
  ni_imageUrl :: "string option"
  ni_faviconUrl :: string
  ni_location :: "ItemLocation option"
  ni_moodScore :: "number option"
  ni_eventDate :: "string option"

record NonFatalError =
  err_source :: string
  err_message :: string
  err_timestamp :: int

record CountryConfig =
  cc_name :: string
  cc_code :: string

record SearchSettings =
  maxQueries :: "nat option"
  maxUrlsToScrape :: "nat option"
  uiLanguage :: "string option"

record BrightDataStatus =
  available :: bool
  bd_message :: string

record HistoricalItem =
  hi_url :: string
  hi_fetchedAt :: int

text \<open>
  \<open>FetchResult\<close> as the adapter builds it (\<open>items\<close>, \<open>errors\<close>, \<open>sourceName\<close>), with
  the explanatory message of an empty result (see \<open>emptyResult\<close> below).
\<close>

record FetchResult =
  items :: "NormalizedItem list"
  errors :: "NonFatalError list"
  sourceName :: string
  explanation :: "string option"

subsection \<open>External operations\<close>

text \<open>
  The operations the adapter imports from modules that are not among the sources, as
  parameters: what they return is not decided here. A call that throws returns \<open>Inl\<close>
  of the error's message. \<open>SEARCH_SETTINGS\<close> (lib/config) gives the three limits;
  \<open>prisma_historicalItems\<close> is the content of the table \<open>historicalItem\<close> (or the
  error of the query), \<open>clock\<close> the reading of \<open>new Date()\<close>, and \<open>hostname\<close> is
  \<open>new URL(u).hostname\<close>, which throws on a string that is not a URL. \<open>localTZA\<close> is
  the offset of the local time zone of the host in milliseconds, \<open>LocalTZA(t, isUTC)\<close>
  of ECMAScript: the offset in force at \<open>t\<close>, a UTC time value when \<open>isUTC\<close> is true
  and a local time value otherwise.
\<close>

record Env =
  getBrightDataStatus :: BrightDataStatus
  generateSearchQueries ::
    "CountryConfig \<Rightarrow> nat option \<Rightarrow> string + (SearchQuery list \<times> DirectUrl list)"
  serpSearch :: "string \<Rightarrow> string \<Rightarrow> string \<Rightarrow> nat \<Rightarrow> string + SerpResult list"
  normalizeUrl :: "string \<Rightarrow> string"
  prisma_historicalItems :: "string + HistoricalItem list"
  clock :: int
  localTZA :: "int \<Rightarrow> bool \<Rightarrow> int"
  selectBestUrls :: "SerpResult list \<Rightarrow> CountryConfig \<Rightarrow> nat \<Rightarrow> string + UrlToScrape list"
  scrapeAsMarkdown :: "string \<Rightarrow> string + ScrapeResult"
  hostname :: "string \<Rightarrow> string + string"
  extractContent ::
    "string \<Rightarrow> string \<Rightarrow> string option \<Rightarrow> CountryConfig \<Rightarrow> string \<Rightarrow> ContentCategory
     \<Rightarrow> string + ExtractedContent option"
  detectLanguage :: "string \<Rightarrow> string"
  geocode :: "string \<Rightarrow> string + Coords option"
  generateId :: "string \<Rightarrow> string"
  getFaviconUrl :: "string \<Rightarrow> string"
  maxConcurrentSearches :: nat
  maxConcurrentScrapes :: nat
  defaultMaxUrlsToScrape :: nat

text \<open>
  The external operations that the run has awaited so far, in the order in which they
  returned: the effect of the adapter outside its own variables. (The availability
  check \<open>getBrightDataStatus()\<close> is synchronous and reads a status only.)
\<close>

datatype ExternalCall =
  CallGenerate
| CallSerp string
| CallHistory
| CallSelect
| CallScrape string
| CallExtract string
| CallGeocode string

text \<open>
  The state a run of \<open>fetch\<close> works on: the scan status module, the run's \<open>errors\<close>
  array, the counter \<open>completed\<close> of the stage in progress, and the external calls made.
\<close>

record FetchState =
  tracker :: TrackerState
  errorList :: "NonFatalError list"
  completed :: nat
  calls :: "ExternalCall list"

subsection \<open>Progress of the fetching phase\<close>

datatype Substep = QueryGen | SerpSearch | MergeDedup | UrlSelect | Scraping | Extraction

fun FETCH_SUBSTEPS :: "Substep \<Rightarrow> Range" where
  "FETCH_SUBSTEPS QueryGen = \<lparr>range_start = 0, range_end = 5\<rparr>"
| "FETCH_SUBSTEPS SerpSearch = \<lparr>range_start = 5, range_end = 20\<rparr>"
| "FETCH_SUBSTEPS MergeDedup = \<lparr>range_start = 20, range_end = 25\<rparr>"
| "FETCH_SUBSTEPS UrlSelect = \<lparr>range_start = 25, range_end = 30\<rparr>"
| "FETCH_SUBSTEPS Scraping = \<lparr>range_start = 30, range_end = 70\<rparr>"
| "FETCH_SUBSTEPS Extraction = \<lparr>range_start = 70, range_end = 100\<rparr>"

definition calcFetchProgress :: "Substep \<Rightarrow> number \<Rightarrow> int" where
  "calcFetchProgress substep stepProgress =
     (let rng = FETCH_SUBSTEPS substep;
          substepProgress =
            number_add (range_start rng)
              (number_mul (number_div stepProgress 100)
                 (number_sub (range_end rng) (range_start rng)))
      in calculatePhaseProgress PFetching substepProgress)"

definition reportRegionProgress :: "string \<Rightarrow> Substep \<Rightarrow> number \<Rightarrow> string \<Rightarrow> FetchState \<Rightarrow> FetchState" where
  "reportRegionProgress region substep stepProgress msg st =
     st\<lparr> tracker :=
          updateRegionProgress region (of_int (calcFetchProgress substep stepProgress)) msg
            (tracker st) \<rparr>"

text \<open>A natural number in a template string: its decimal digits.\<close>

definition digit_char :: "nat \<Rightarrow> char" where
  "digit_char d = char_of (48 + d)"

function string_of_nat :: "nat \<Rightarrow> string" where
  "string_of_nat n =
     (if n < 10 then [digit_char n] else string_of_nat (n div 10) @ [digit_char (n mod 10)])"
  by pat_completeness auto
termination
  by (relation "measure id") auto

declare string_of_nat.simps [simp del]

text \<open>\<open>a || b\<close> on an optional string: \<open>b\<close> when \<open>a\<close> is undefined or empty.\<close>

definition or_string :: "string option \<Rightarrow> string \<Rightarrow> string" where
  "or_string a b = (case a of None \<Rightarrow> b | Some t \<Rightarrow> if t = [] then b else t)"

definition log_call :: "ExternalCall \<Rightarrow> FetchState \<Rightarrow> FetchState" where
  "log_call c st = st\<lparr>calls := calls st @ [c]\<rparr>"

text \<open>\<open>completed++\<close>, then the report of the stage's progress \<open>(completed / total) * 100\<close>.\<close>

definition count_completed :: "string \<Rightarrow> Substep \<Rightarrow> string \<Rightarrow> nat \<Rightarrow> FetchState \<Rightarrow> FetchState" where
  "count_completed regionName substep verb n st =
     (let c = completed st + 1;
          stepProgress = number_mul (number_div (of_nat c) (of_nat n)) 100
      in reportRegionProgress regionName substep stepProgress
           (verb @ '' ('' @ string_of_nat c @ ''/'' @ string_of_nat n @ '')...'')
           (st\<lparr>completed := c\<rparr>))"

definition push_error :: "Env \<Rightarrow> string \<Rightarrow> string \<Rightarrow> FetchState \<Rightarrow> FetchState" where
  "push_error env src msg st =
     st\<lparr> errorList := errorList st @
          [\<lparr>err_source = src, err_message = msg, err_timestamp = clock env\<rparr>] \<rparr>"

subsection \<open>Step 2: the searches\<close>

definition runSearches_worker ::
  "Env \<Rightarrow> CountryConfig \<Rightarrow> string \<Rightarrow> nat
   \<Rightarrow> (SearchQuery, SerpResult list, string, FetchState) worker_fn" where
  "runSearches_worker env cc regionName n q index st =
     (case serpSearch env (q_query q) (cc_code cc) (q_language q) 10 of
        Inl e \<Rightarrow> (Inl e, log_call (CallSerp (q_query q)) st)
      | Inr searchResults \<Rightarrow>
          (Inr searchResults,
           count_completed regionName SerpSearch ''Searching'' n
             (log_call (CallSerp (q_query q)) st)))"

definition runSearches_onError :: "Env \<Rightarrow> (SearchQuery, string, FetchState) on_error_fn" where
  "runSearches_onError env q index e st =
     push_error env ''Search''
       (''Query failed: '' @ [CHR 0x22] @ q_query q @ [CHR 0x22] @ '' - '' @ e) st"

definition runSearches ::
  "Env \<Rightarrow> CountryConfig \<Rightarrow> SearchQuery list \<Rightarrow> string \<Rightarrow> nat list \<Rightarrow> FetchState
   \<Rightarrow> SerpResult list \<times> FetchState" where
  "runSearches env cc queries regionName schedule st =
     (let res = workerPoolCollect queries
                  (runSearches_worker env cc regionName (length queries))
                  (maxConcurrentSearches env)
                  (Some (runSearches_onError env))
                  schedule (st\<lparr>completed := 0\<rparr>)
      in (concat (fst res), snd res))"

subsection \<open>Steps 3 and 4: merge and deduplicate\<close>

definition directAsSerpResults :: "DirectUrl list \<Rightarrow> SerpResult list" where
  "directAsSerpResults directUrls =
     map (\<lambda>(i, d). \<lparr> url = d_url d, title = d_name d,
                     snippet = ''Direct source: '' @ d_name d, position = int i \<rparr>)
       (enumerate_from 0 directUrls)"

definition allResults :: "DirectUrl list \<Rightarrow> SerpResult list \<Rightarrow> SerpResult list" where
  "allResults directUrls serpResults = directAsSerpResults directUrls @ serpResults"

text \<open>The loop of \<open>deduplicateResults\<close>, with its variables \<open>seen\<close> and \<open>unique\<close>.\<close>

fun dedup_loop ::
  "(string \<Rightarrow> string) \<Rightarrow> SerpResult list \<Rightarrow> string set \<Rightarrow> SerpResult list \<Rightarrow> SerpResult list" where
  "dedup_loop canon [] seen unique = unique"
| "dedup_loop canon (r # rs) seen unique =
     (if canon (url r) \<notin> seen
      then dedup_loop canon rs (insert (canon (url r)) seen) (unique @ [r])
      else dedup_loop canon rs seen unique)"

text \<open>
  \<open>unique.sort((a, b) => a.position - b.position)\<close>: ascending by position;
  \<open>Array.prototype.sort\<close> is stable, as the insertion sort \<open>sort_key\<close> is.
\<close>

definition deduplicateResults :: "Env \<Rightarrow> SerpResult list \<Rightarrow> SerpResult list" where
  "deduplicateResults env results =
     sort_key position (dedup_loop (normalizeUrl env) results {} [])"

subsection \<open>Step 4b: the URLs scraped recently (lib/history)\<close>

definition URL_DEDUP_DAYS :: int where
  "URL_DEDUP_DAYS = 7"

text \<open>The time values of ECMAScript (section Date objects): days, local time and UTC.\<close>

definition msPerDay :: int where
  "msPerDay = 86400000"

definition Day :: "int \<Rightarrow> int" where
  "Day t = t div msPerDay"

definition TimeWithinDay :: "int \<Rightarrow> int" where
  "TimeWithinDay t = t mod msPerDay"

definition MakeDate :: "int \<Rightarrow> int \<Rightarrow> int" where
  "MakeDate day time = day * msPerDay + time"

definition LocalTime :: "Env \<Rightarrow> int \<Rightarrow> int" where
  "LocalTime env t = t + localTZA env t True"

definition UTC :: "Env \<Rightarrow> int \<Rightarrow> int" where
  "UTC env t = t - localTZA env t False"

text \<open>
  \<open>cutoff.setDate(cutoff.getDate() - daysBack)\<close>. With \<open>t\<close> the local time of the
  date, \<open>Date.prototype.setDate(dt)\<close> sets the date to the UTC of
  \<open>MakeDate(MakeDay(YearFromTime(t), MonthFromTime(t), dt), TimeWithinDay(t))\<close>.
  \<open>MakeDay(y, m, dt)\<close> is the day number of the first of the month plus \<open>dt - 1\<close>, and
  \<open>getDate()\<close> is \<open>Day(t)\<close> minus the day number of the first of the month plus 1: for
  \<open>dt = getDate() - daysBack\<close> the day that \<open>MakeDay\<close> returns is \<open>Day(t) - daysBack\<close>,
  whatever the lengths of the months. The date keeps its local time of day and moves
  \<open>daysBack\<close> days of the local calendar back; this is \<open>daysBack\<close> times 24 hours only
  if the offset of the zone is the same at both ends. (The time values of the program
  are within the range of \<open>TimeClip\<close>.)
\<close>

definition cutoff_date :: "Env \<Rightarrow> int \<Rightarrow> int \<Rightarrow> int" where
  "cutoff_date env today daysBack =
     (let t = LocalTime env today;
          newDate = MakeDate (Day t - daysBack) (TimeWithinDay t)
      in UTC env newDate)"

definition getRecentlyScrapedUrls :: "Env \<Rightarrow> int option \<Rightarrow> string + string set" where
  "getRecentlyScrapedUrls env daysBackArg =
     (let daysBack = (case daysBackArg of None \<Rightarrow> URL_DEDUP_DAYS | Some d \<Rightarrow> d);
          cutoff = cutoff_date env (clock env) daysBack
      in case prisma_historicalItems env of
           Inl e \<Rightarrow> Inl e
         | Inr rows \<Rightarrow>
             Inr (set (map (\<lambda>item. normalizeUrl env (hi_url item))
                        (filter (\<lambda>item. hi_fetchedAt item \<ge> cutoff) rows))))"

definition newResults :: "Env \<Rightarrow> string set \<Rightarrow> SerpResult list \<Rightarrow> SerpResult list" where
  "newResults env existingUrls uniqueResults =
     filter (\<lambda>r. normalizeUrl env (url r) \<notin> existingUrls) uniqueResults"

subsection \<open>Step 6: scraping\<close>

definition scrapeUrls_worker ::
  "Env \<Rightarrow> string \<Rightarrow> nat \<Rightarrow> (UrlToScrape, ScrapedContent, string, FetchState) worker_fn" where
  "scrapeUrls_worker env regionName n urlInfo index st =
     (case scrapeAsMarkdown env (us_url urlInfo) of
        Inl e \<Rightarrow> (Inl e, log_call (CallScrape (us_url urlInfo)) st)
      | Inr result \<Rightarrow>
          (let st1 = count_completed regionName Scraping ''Scraping'' n
                       (log_call (CallScrape (us_url urlInfo)) st)
           in case hostname env (us_url urlInfo) of
                Inl e \<Rightarrow> (Inl e, st1)
              | Inr domain \<Rightarrow>
                  (Inr \<lparr> sc_url = us_url urlInfo,
                         sc_content = sr_content result,
                         sc_imageUrl = sr_imageUrl result,
                         sc_title = Some (or_string (sr_title result) (us_title urlInfo)),
                         sc_category = us_category urlInfo \<rparr>,
                   st1)))"

definition scrapeUrls_onError :: "Env \<Rightarrow> (UrlToScrape, string, FetchState) on_error_fn" where
  "scrapeUrls_onError env urlInfo index e st =
     push_error env ''Scrape'' (''Failed to scrape: '' @ us_url urlInfo @ '' - '' @ e) st"

definition scrapeUrls ::
  "Env \<Rightarrow> UrlToScrape list \<Rightarrow> string \<Rightarrow> nat list \<Rightarrow> FetchState
   \<Rightarrow> ScrapedContent list \<times> FetchState" where
  "scrapeUrls env urls regionName schedule st =
     workerPoolCollect urls
       (scrapeUrls_worker env regionName (length urls))
       (maxConcurrentScrapes env)
       (Some (scrapeUrls_onError env))
       schedule (st\<lparr>completed := 0\<rparr>)"

subsection \<open>Step 7: extraction and normalization\<close>

text \<open>The \<open>switch\<close> of \<open>categoryToLens\<close>; \<open>news\<close> shares the default branch.\<close>

definition categoryToLens :: "ContentCategory \<Rightarrow> string" where
  "categoryToLens category =
     (if category = ''events'' then ''Events''
      else if category = ''tech'' then ''Tech''
      else if category = ''weather'' then ''Weather''
      else if category = ''social'' then ''Conversation''
      else ''Headlines'')"

text \<open>\<open>extracted.articleUrl || scraped.url\<close>\<close>

definition finalUrl :: "ExtractedContent \<Rightarrow> ScrapedContent \<Rightarrow> string" where
  "finalUrl extracted scraped = or_string (ex_articleUrl extracted) (sc_url scraped)"

text \<open>
  The geocoding of the worker: \<open>Inl\<close> when \<open>geocode\<close> throws, otherwise the
  \<open>location\<close> of the item (undefined without a location text or without coordinates)
  and the calls made. The worker awaits \<open>geocode\<close> after it has counted the page and
  reported the progress; what it does after that second await changes none of the
  module's variables, and is taken together with what precedes it.
\<close>

definition locate ::
  "Env \<Rightarrow> CountryConfig \<Rightarrow> ExtractedContent \<Rightarrow> FetchState
   \<Rightarrow> (string + ItemLocation option) \<times> FetchState" where
  "locate env cc extracted st =
     (case ex_location extracted of
        None \<Rightarrow> (Inr None, st)
      | Some l \<Rightarrow>
          if l = [] then (Inr None, st)
          else (case geocode env l of
                  Inl e \<Rightarrow> (Inl e, log_call (CallGeocode l) st)
                | Inr None \<Rightarrow> (Inr None, log_call (CallGeocode l) st)
                | Inr (Some coords) \<Rightarrow>
                    (Inr (Some \<lparr> loc_name = l, loc_lat = lat coords, loc_lng = lng coords,
                                  loc_country = or_string (country coords) (cc_name cc),
                                  loc_region = cc_name cc \<rparr>),
                     log_call (CallGeocode l) st)))"

text \<open>
  \<open>if (extracted.eventDate) item.eventDate = extracted.eventDate\<close>: the field is set
  only from a value that is not empty.
\<close>

definition truthy_string :: "string option \<Rightarrow> string option" where
  "truthy_string a = (case a of None \<Rightarrow> None | Some t \<Rightarrow> if t = [] then None else Some t)"

definition toNormalizedItem ::
  "Env \<Rightarrow> ScrapedContent \<Rightarrow> ExtractedContent \<Rightarrow> ItemLocation option \<Rightarrow> NormalizedItem" where
  "toNormalizedItem env scraped extracted location =
     \<lparr> ni_id = generateId env (''search:'' @ finalUrl extracted scraped),
       ni_source = (if ex_category extracted = ''events'' then ''events'' else ''search''),
       ni_lens = categoryToLens (ex_category extracted),
       ni_language = detectLanguage env (ex_title extracted @ '' '' @ ex_summary extracted),
       ni_title = ex_title extracted,
       ni_text = ex_summary extracted,
       ni_createdAt = (case ex_publishedAt extracted of None \<Rightarrow> clock env | Some d \<Rightarrow> d),
       ni_url = finalUrl extracted scraped,
       ni_engagement = ex_engagement extracted,
       ni_context = ''Search: '' @ ex_category extracted,
       ni_imageUrl = ex_imageUrl extracted,
       ni_faviconUrl = getFaviconUrl env (finalUrl extracted scraped),
       ni_location = location,
       ni_moodScore = ex_moodScore extracted,
       ni_eventDate = truthy_string (ex_eventDate extracted) \<rparr>"

definition extractAndNormalize_worker ::
  "Env \<Rightarrow> CountryConfig \<Rightarrow> SearchSettings \<Rightarrow> string \<Rightarrow> nat
   \<Rightarrow> (ScrapedContent, NormalizedItem, string, FetchState) worker_fn" where
  "extractAndNormalize_worker env cc settings regionName n scraped index st =
     (case extractContent env (sc_content scraped) (sc_url scraped) (sc_imageUrl scraped) cc
             (or_string (uiLanguage settings) ''en'') (sc_category scraped) of
        Inl e \<Rightarrow> (Inl e, log_call (CallExtract (sc_url scraped)) st)
      | Inr None \<Rightarrow>
          (Inl ''Extraction returned null'', log_call (CallExtract (sc_url scraped)) st)
      | Inr (Some extracted) \<Rightarrow>
          (let st1 = count_completed regionName Extraction ''Extracting'' n
                       (log_call (CallExtract (sc_url scraped)) st);
               located = locate env cc extracted st1
           in case fst located of
                Inl e \<Rightarrow> (Inl e, snd located)
              | Inr location \<Rightarrow>
                  (Inr (toNormalizedItem env scraped extracted location), snd located)))"

definition extractAndNormalize_onError :: "Env \<Rightarrow> (ScrapedContent, string, FetchState) on_error_fn" where
  "extractAndNormalize_onError env scraped index e st =
     push_error env ''Extract'' (''Failed to extract: '' @ sc_url scraped @ '' - '' @ e) st"

definition extractAndNormalize ::
  "Env \<Rightarrow> CountryConfig \<Rightarrow> SearchSettings \<Rightarrow> ScrapedContent list \<Rightarrow> string \<Rightarrow> nat list
   \<Rightarrow> FetchState \<Rightarrow> NormalizedItem list \<times> FetchState" where
  "extractAndNormalize env cc settings scrapedContent regionName schedule st =
     workerPoolCollect scrapedContent
       (extractAndNormalize_worker env cc settings regionName (length scrapedContent))
       (maxConcurrentScrapes env)
       (Some (extractAndNormalize_onError env))
       schedule (st\<lparr>completed := 0\<rparr>)"

subsection \<open>The pipeline\<close>

text \<open>
  Modelled from the spec: \<open>BaseAdapter.emptyResult\<close> (adapters/base) is not among the
  sources. The specification (sections 7 and 8) describes what it returns as "an empty
  result with an explanatory message", \<open>{items: [], errors: []}\<close>: no item, no error,
  and the message carried with the result.
\<close>

definition emptyResult :: "string \<Rightarrow> string \<Rightarrow> FetchResult" where
  "emptyResult configName msg =
     \<lparr> items = [], errors = [], sourceName = configName, explanation = Some msg \<rparr>"

text \<open>The schedules of the three runs of the pool.\<close>

record Schedules =
  searchSchedule :: "nat list"
  scrapeSchedule :: "nat list"
  extractSchedule :: "nat list"

text \<open>
  Steps 6 and 7 and the result of \<open>fetch\<close>, from the selected URLs on.
\<close>

definition fetch_scrape_extract ::
  "Env \<Rightarrow> string \<Rightarrow> CountryConfig \<Rightarrow> SearchSettings \<Rightarrow> Schedules \<Rightarrow> UrlToScrape list
   \<Rightarrow> FetchState \<Rightarrow> (string + FetchResult) \<times> FetchState" where
  "fetch_scrape_extract env configName cc settings sch selectedUrls st =
     (let regionName = cc_name cc;
          st1 = reportRegionProgress regionName Scraping 0
                  (''Scraping (0/'' @ string_of_nat (length selectedUrls) @ '')...'') st;
          scraped = scrapeUrls env selectedUrls regionName (scrapeSchedule sch) st1;
          scrapedContent = fst scraped;
          st2 = reportRegionProgress regionName Scraping 100
                  (string_of_nat (length scrapedContent) @ '' pages scraped'') (snd scraped);
          st3 = reportRegionProgress regionName Extraction 0
                  (''Extracting (0/'' @ string_of_nat (length scrapedContent) @ '')...'') st2;
          extracted = extractAndNormalize env cc settings scrapedContent regionName
                        (extractSchedule sch) st3;
          st4 = reportRegionProgress regionName Extraction 100
                  (string_of_nat (length (fst extracted)) @ '' items extracted'') (snd extracted)
      in (Inr \<lparr> items = fst extracted, errors = errorList st4, sourceName = configName,
                 explanation = None \<rparr>,
          st4))"

text \<open>
  Steps 3 to 5, from the results of the searches on: merge, deduplicate, filter the
  URLs scraped recently, select.
\<close>

definition fetch_merge_select ::
  "Env \<Rightarrow> string \<Rightarrow> CountryConfig \<Rightarrow> SearchSettings \<Rightarrow> Schedules \<Rightarrow> DirectUrl list
   \<Rightarrow> SerpResult list \<Rightarrow> FetchState \<Rightarrow> (string + FetchResult) \<times> FetchState" where
  "fetch_merge_select env configName cc settings sch directUrls serpResults st =
     (let regionName = cc_name cc;
          st1 = reportRegionProgress regionName MergeDedup 0 ''Merging URLs...'' st;
          uniqueResults = deduplicateResults env (allResults directUrls serpResults);
          st2 = log_call CallHistory st1
      in case getRecentlyScrapedUrls env None of
           Inl e \<Rightarrow> (Inl e, st2)
         | Inr existingUrls \<Rightarrow>
             (let fresh = newResults env existingUrls uniqueResults;
                  st3 = reportRegionProgress regionName MergeDedup 100
                          (string_of_nat (length fresh) @ '' new URLs'') st2;
                  maxUrls = (case maxUrlsToScrape settings of
                               None \<Rightarrow> defaultMaxUrlsToScrape env
                             | Some m \<Rightarrow> m);
                  st4 = log_call CallSelect
                          (reportRegionProgress regionName UrlSelect 0 ''Selecting URLs...'' st3)
              in case selectBestUrls env fresh cc maxUrls of
                   Inl e \<Rightarrow> (Inl e, st4)
                 | Inr selectedUrls \<Rightarrow>
                     fetch_scrape_extract env configName cc settings sch selectedUrls
                       (reportRegionProgress regionName UrlSelect 100
                          (string_of_nat (length selectedUrls) @ '' URLs selected'') st4)))"

text \<open>
  \<open>SearchAdapter.fetch\<close>. The result is \<open>Inl\<close> when the promise is rejected (the query
  generation, the history query or the selection threw). The argument \<open>since\<close> is not
  read by the method.
\<close>

definition fetch ::
  "Env \<Rightarrow> string \<Rightarrow> CountryConfig \<Rightarrow> SearchSettings \<Rightarrow> Schedules \<Rightarrow> int \<Rightarrow> FetchState
   \<Rightarrow> (string + FetchResult) \<times> FetchState" where
  "fetch env configName cc settings sch since st0 =
     (let st = st0\<lparr>errorList := [], completed := 0\<rparr>;
          bdStatus = getBrightDataStatus env
      in if \<not> available bdStatus then (Inr (emptyResult configName (bd_message bdStatus)), st)
         else
           (let regionName = cc_name cc;
                st1 = log_call CallGenerate
                        (reportRegionProgress regionName QueryGen 0 ''Generating queries...'' st)
            in case generateSearchQueries env cc (maxQueries settings) of
                 Inl e \<Rightarrow> (Inl e, st1)
               | Inr generated \<Rightarrow>
                   (let queries = fst generated;
                        directUrls = snd generated;
                        st2 = reportRegionProgress regionName QueryGen 100
                                (string_of_nat (length queries) @ '' queries'') st1;
                        st3 = reportRegionProgress regionName SerpSearch 0
                                (''Searching (0/'' @ string_of_nat (length queries) @ '')...'') st2;
                        searched = runSearches env cc queries regionName (searchSchedule sch) st3;
                        st4 = reportRegionProgress regionName SerpSearch 100
                                (string_of_nat (length (fst searched)) @ '' results'') (snd searched)
                    in fetch_merge_select env configName cc settings sch directUrls
                         (fst searched) st4)))"

section \<open>Notions used in the statements\<close>

text \<open>
  The slowest region of a map: the first entry, in insertion order, among those of least
  progress.
\<close>

definition slowest :: "RegionMap \<Rightarrow> string \<times> RegionInfo" where
  "slowest m = arg_min_list (\<lambda>e. rp_progress (snd e)) m"


text \<open>
  Two regions tracked after \<open>initRegionTracking(['A', 'B'])\<close>, region A at progress 80.
\<close>

definition two_regions :: TrackerState where
  "two_regions =
     updateRegionProgress ''A'' 80 ''a'' (initRegionTracking [''A'', ''B''] initialTracker)"

text \<open>
  A scan in the summarizing phase, and the partial update
  \<open>{ phase: 'saving', progress: 95 }\<close>.
\<close>

definition summarizing_tracker :: TrackerState where
  "summarizing_tracker =
     \<lparr> currentStatus =
         \<lparr> phase = Summarizing, message = ''Summarizing...'', progress = Some 80,
           startedAt = Some 1000, completedAt = None, error = None, itemCount = Some 12 \<rparr>,
       regionProgress = [],
       totalRegions = 0 \<rparr>"

definition saving_update :: ScanStatusUpdate where
  "saving_update = no_update\<lparr>u_phase := Some Saving, u_progress := Some (Some 95)\<rparr>"

text \<open>
  The entry of a candidate list for a canonical URL \<open>k\<close>: the first candidate, in list
  order, whose URL normalizes to \<open>k\<close> (as a list of at most one element).
\<close>

definition only_entry :: "(string \<Rightarrow> string) \<Rightarrow> string \<Rightarrow> SerpResult list \<Rightarrow> SerpResult list" where
  "only_entry canon k rs = (case find (\<lambda>y. canon (url y) = k) rs of None \<Rightarrow> [] | Some x \<Rightarrow> [x])"

text \<open>
  The job (index and item) of a settled invocation, and the event that an invocation
  gives when the outcome of the worker does not depend on the caller's state.
\<close>

definition job_of :: "('i, 'o, 'e) settled \<Rightarrow> nat \<times> 'i" where
  "job_of ev = (settled_index ev, settled_item ev)"

definition event_of :: "('i \<Rightarrow> nat \<Rightarrow> 'e + 'o) \<Rightarrow> nat \<times> 'i \<Rightarrow> ('i, 'o, 'e) settled" where
  "event_of outcome job =
     (case outcome (snd job) (fst job) of
        Inr out \<Rightarrow> Succeeded (fst job) (snd job) out
      | Inl e \<Rightarrow> Failed (fst job) (snd job) e)"

text \<open>
  What one settled invocation appends to a list kept in the caller's state, when the
  worker appends \<open>cw item index\<close> and the error callback \<open>ch item index e\<close>.
\<close>

fun contribution ::
  "('i \<Rightarrow> nat \<Rightarrow> 'a list) \<Rightarrow> ('i \<Rightarrow> nat \<Rightarrow> 'e \<Rightarrow> 'a list) \<Rightarrow> ('i, 'o, 'e) settled \<Rightarrow> 'a list" where
  "contribution cw ch (Succeeded k i out) = cw i k"
| "contribution cw ch (Failed k i e) = cw i k @ ch i k e"

text \<open>
  Of an input list: the outputs of the items whose invocation succeeds, and the
  \<open>(item, index, error)\<close> of those whose invocation fails, both in input order.
\<close>

definition successes :: "('i \<Rightarrow> nat \<Rightarrow> 'e + 'o) \<Rightarrow> 'i list \<Rightarrow> 'o list" where
  "successes outcome inputs =
     concat (map (\<lambda>job. settled_output (event_of outcome job)) (enumerate_from 0 inputs))"

definition failures :: "('i \<Rightarrow> nat \<Rightarrow> 'e + 'o) \<Rightarrow> 'i list \<Rightarrow> ('i \<times> nat \<times> 'e) list" where
  "failures outcome inputs =
     concat (map (\<lambda>job. settled_error (event_of outcome job)) (enumerate_from 0 inputs))"

text \<open>
  A worker without effect on the caller's state, and an error callback that records the
  arguments of each of its calls.
\<close>

definition pure_worker :: "('i \<Rightarrow> nat \<Rightarrow> 'e + 'o) \<Rightarrow> ('i, 'o, 'e, 's) worker_fn" where
  "pure_worker outcome item index s = (outcome item index, s)"

definition recording_onError :: "('i, 'e, ('i \<times> nat \<times> 'e) list) on_error_fn" where
  "recording_onError item index e recorded = recorded @ [(item, index, e)]"

text \<open>An operation that fails on the item \<open>bad\<close>.\<close>

definition flaky :: "string \<Rightarrow> nat \<Rightarrow> string + nat" where
  "flaky item index = (if item = ''bad'' then Inl ''boom'' else Inr (length item + index))"

text \<open>
  The outcome of the extraction worker for one scraped page, without the state: the
  geocoding, then the item or the error.
\<close>

definition location_of :: "Env \<Rightarrow> CountryConfig \<Rightarrow> ExtractedContent \<Rightarrow> string + ItemLocation option" where
  "location_of env cc extracted =
     (case ex_location extracted of
        None \<Rightarrow> Inr None
      | Some l \<Rightarrow>
          if l = [] then Inr None
          else (case geocode env l of
                  Inl e \<Rightarrow> Inl e
                | Inr None \<Rightarrow> Inr None
                | Inr (Some coords) \<Rightarrow>
                    Inr (Some \<lparr> loc_name = l, loc_lat = lat coords, loc_lng = lng coords,
                                 loc_country = or_string (country coords) (cc_name cc),
                                 loc_region = cc_name cc \<rparr>)))"

definition extract_outcome ::
  "Env \<Rightarrow> CountryConfig \<Rightarrow> SearchSettings \<Rightarrow> ScrapedContent \<Rightarrow> nat \<Rightarrow> string + NormalizedItem" where
  "extract_outcome env cc settings scraped index =
     (case extractContent env (sc_content scraped) (sc_url scraped) (sc_imageUrl scraped) cc
             (or_string (uiLanguage settings) ''en'') (sc_category scraped) of
        Inl e \<Rightarrow> Inl e
      | Inr None \<Rightarrow> Inl ''Extraction returned null''
      | Inr (Some extracted) \<Rightarrow>
          (case location_of env cc extracted of
             Inl e \<Rightarrow> Inl e
           | Inr location \<Rightarrow> Inr (toNormalizedItem env scraped extracted location)))"

text \<open>The \<open>NonFatalError\<close> that the extraction's error callback pushes for a failure.\<close>

definition extract_error :: "Env \<Rightarrow> ScrapedContent \<times> nat \<times> string \<Rightarrow> NonFatalError" where
  "extract_error env failure =
     \<lparr> err_source = ''Extract'',
       err_message = ''Failed to extract: '' @ sc_url (fst failure) @ '' - '' @ snd (snd failure),
       err_timestamp = clock env \<rparr>"

text \<open>The URLs of the scrape calls among the external calls.\<close>

fun scraped_urls :: "ExternalCall list \<Rightarrow> string list" where
  "scraped_urls [] = []"
| "scraped_urls (CallScrape u # cs) = u # scraped_urls cs"
| "scraped_urls (c # cs) = scraped_urls cs"

subsection \<open>A test environment\<close>

text \<open>
  Test doubles for the external operations, for the examples: a normalizer that strips
  one trailing slash, a generator with two queries and one direct URL, a history with
  one page fetched a day ago and one fetched long ago, an extractor that returns
  \<open>null\<close> for one page and a canonical article URL for another.
\<close>

definition strip_slash :: "string \<Rightarrow> string" where
  "strip_slash u = (if u \<noteq> [] \<and> last u = CHR ''/'' then butlast u else u)"

definition direct_A :: DirectUrl where
  "direct_A = \<lparr> d_url = ''https://a.example/'', d_name = ''A'' \<rparr>"

definition organic_B1 :: SerpResult where
  "organic_B1 = \<lparr> url = ''https://b.example'', title = ''B'', snippet = ''b'', position = 1 \<rparr>"

definition organic_A5 :: SerpResult where
  "organic_A5 = \<lparr> url = ''https://a.example'', title = ''A again'', snippet = ''a'', position = 5 \<rparr>"

definition organic_C2 :: SerpResult where
  "organic_C2 = \<lparr> url = ''https://c.example'', title = ''C'', snippet = ''c'', position = 2 \<rparr>"

definition stub_extracted :: "string \<Rightarrow> ContentCategory \<Rightarrow> ExtractedContent" where
  "stub_extracted u category =
     \<lparr> ex_title = ''Title'', ex_summary = ''Summary'', ex_category = category,
       ex_location = None,
       ex_articleUrl = (if u = ''https://a.example/'' then Some ''https://a.example/story'' else None),
       ex_publishedAt = None, ex_engagement = 0, ex_imageUrl = None,
       ex_moodScore = Some 50, ex_eventDate = None \<rparr>"

definition stub_env :: Env where
  "stub_env =
     \<lparr> getBrightDataStatus = \<lparr> available = True, bd_message = ''ready'' \<rparr>,
       generateSearchQueries =
         (\<lambda>cc n. Inr ([\<lparr> q_query = ''local news'', q_category = ''news'', q_language = ''en'' \<rparr>,
                        \<lparr> q_query = ''local events'', q_category = ''events'', q_language = ''en'' \<rparr>],
                       [direct_A])),
       serpSearch =
         (\<lambda>q code language numResults.
            if q = ''local news'' then Inr [organic_B1, organic_A5] else Inr [organic_C2]),
       normalizeUrl = strip_slash,
       prisma_historicalItems =
         Inr [\<lparr> hi_url = ''https://c.example/'', hi_fetchedAt = 999913600000 \<rparr>,
              \<lparr> hi_url = ''https://b.example/'', hi_fetchedAt = 900000000000 \<rparr>],
       clock = 1000000000000,
       localTZA = (\<lambda>t isUTC. 7200000),
       selectBestUrls =
         (\<lambda>candidates cc maxCount.
            Inr (map (\<lambda>r. \<lparr> us_url = url r, us_title = title r, us_snippet = snippet r,
                              us_category = ''news'' \<rparr>)
                   (take maxCount candidates))),
       scrapeAsMarkdown =
         (\<lambda>u. Inr \<lparr> sr_content = ''content'', sr_imageUrl = None, sr_title = None \<rparr>),
       hostname = (\<lambda>u. Inr (drop 8 u)),
       extractContent =
         (\<lambda>content u imageUrl cc language category.
            if u = ''https://b.example'' then Inr None else Inr (Some (stub_extracted u category))),
       detectLanguage = (\<lambda>t. ''en''),
       geocode = (\<lambda>l. Inr None),
       generateId = (\<lambda>seed. ''id-'' @ seed),
       getFaviconUrl = (\<lambda>u. u @ ''/favicon.ico''),
       maxConcurrentSearches = 3,
       maxConcurrentScrapes = 2,
       defaultMaxUrlsToScrape = 10 \<rparr>"

definition stub_cc :: CountryConfig where
  "stub_cc = \<lparr> cc_name = ''Region'', cc_code = ''rg'' \<rparr>"

definition stub_settings :: SearchSettings where
  "stub_settings = \<lparr> maxQueries = None, maxUrlsToScrape = None, uiLanguage = None \<rparr>"

definition page_A :: ScrapedContent where
  "page_A = \<lparr> sc_url = ''https://a.example/'', sc_content = ''content'', sc_imageUrl = None,
              sc_title = Some ''A'', sc_category = ''news'' \<rparr>"

definition page_B :: ScrapedContent where
  "page_B = \<lparr> sc_url = ''https://b.example'', sc_content = ''content'', sc_imageUrl = None,
              sc_title = Some ''B'', sc_category = ''news'' \<rparr>"

definition fresh_state :: FetchState where
  "fresh_state = \<lparr> tracker = initialTracker, errorList = [], completed = 0, calls = [] \<rparr>"

text \<open>The test environment with the provider reporting that it is not available.\<close>

definition offline_env :: Env where
  "offline_env =
     stub_env\<lparr> getBrightDataStatus :=
       \<lparr> available = False, bd_message = ''BrightData API token not configured'' \<rparr> \<rparr>"

text \<open>
  The test environment in a zone whose clocks went forward by one hour three days before
  the reading of the clock (the offset is one hour before and two hours after), with
  one history item, fetched 6 days, 23 hours and 30 minutes before the reading.
\<close>

definition clock_change_env :: Env where
  "clock_change_env =
     stub_env\<lparr> localTZA :=
                 (\<lambda>t isUTC. if t < 999740800000 + (if isUTC then 0 else 3600000)
                            then 3600000 else 7200000),
               prisma_historicalItems :=
                 Inr [\<lparr> hi_url = ''https://b.example/'', hi_fetchedAt = 999397000000 \<rparr>] \<rparr>"

text \<open>The item that the extraction of \<open>page_A\<close> gives in the test environment.\<close>

definition item_A :: NormalizedItem where
  "item_A = toNormalizedItem stub_env page_A (stub_extracted ''https://a.example/'' ''news'') None"

text \<open>Schedules for the three runs of the pool in the examples.\<close>

definition stub_schedules :: Schedules where
  "stub_schedules = \<lparr> searchSchedule = [1], scrapeSchedule = [1, 0], extractSchedule = [1] \<rparr>"

section \<open>Properties of the scan status module\<close>

subsection \<open>The region map\<close>

lemma slowest_Cons:
  "slowest (x # xs) =
     (if xs = [] then x
      else if rp_progress (snd x) \<le> rp_progress (snd (slowest xs)) then x else slowest xs)"
  by (cases xs) (simp_all add: slowest_def Let_def)

lemma slowest_Min:
  "xs \<noteq> [] \<Longrightarrow> rp_progress (snd (slowest xs)) = Min ((\<lambda>e. rp_progress (snd e)) ` set xs)"
  unfolding slowest_def by (rule f_arg_min_list_f)

lemma slowest_in: "xs \<noteq> [] \<Longrightarrow> slowest xs \<in> set xs"
  unfolding slowest_def by (rule arg_min_list_in)

lemma below_iff_slowest:
  "xs \<noteq> [] \<Longrightarrow> (\<exists>e\<in>set xs. rp_progress (snd e) < a) \<longleftrightarrow> rp_progress (snd (slowest xs)) < a"
  by (simp add: slowest_Min Min_less_iff)

lemma slowest_first:
  "xs \<noteq> [] \<Longrightarrow>
   \<exists>i < length xs. xs ! i = slowest xs
      \<and> (\<forall>j < i. rp_progress (snd (slowest xs)) < rp_progress (snd (xs ! j)))"
proof (induction xs)
  case Nil
  then show ?case by simp
next
  case (Cons x xs)
  show ?case
  proof (cases "xs = [] \<or> rp_progress (snd x) \<le> rp_progress (snd (slowest xs))")
    case True
    then have "slowest (x # xs) = x" by (auto simp: slowest_Cons)
    then show ?thesis by (intro exI [of _ 0]) simp
  next
    case False
    then have ne: "xs \<noteq> []" and lt: "rp_progress (snd (slowest xs)) < rp_progress (snd x)"
      by auto
    from Cons.IH [OF ne] obtain i where i: "i < length xs" "xs ! i = slowest xs"
      "\<forall>j < i. rp_progress (snd (slowest xs)) < rp_progress (snd (xs ! j))" by blast
    have s: "slowest (x # xs) = slowest xs" using False by (auto simp: slowest_Cons)
    have "\<forall>j < Suc i. rp_progress (snd (slowest xs)) < rp_progress (snd ((x # xs) ! j))"
      using i(3) lt by (auto simp: less_Suc_eq_0_disj)
    then show ?thesis
      unfolding s using i(1,2) by (intro exI [of _ "Suc i"]) simp
  qed
qed

lemma slowest_scan_fold:
  "fold slowest_step m (a, r) =
     (if \<exists>e\<in>set m. rp_progress (snd e) < a
      then (rp_progress (snd (slowest m)), fst (slowest m)) else (a, r))"
proof (induction m arbitrary: a r)
  case Nil
  then show ?case by simp
next
  case (Cons x xs)
  show ?case
  proof (cases xs)
    case Nil
    then show ?thesis by (simp add: slowest_step_def slowest_Cons)
  next
    case (Cons y ys)
    then have ne: "xs \<noteq> []" by simp
    show ?thesis
      using Cons.IH [of "rp_progress (snd x)" "fst x"] Cons.IH [of a r] below_iff_slowest [OF ne]
      by (auto simp: slowest_step_def slowest_Cons ne)
  qed
qed


lemma Map_set_keys:
  "map fst (Map_set k v m) = (if k \<in> set (map fst m) then map fst m else map fst m @ [k])"
  by (induction m) force+

lemma Map_set_distinct: "distinct (map fst m) \<Longrightarrow> distinct (map fst (Map_set k v m))"
  by (simp add: Map_set_keys)

lemma Map_get_in: "distinct (map fst m) \<Longrightarrow> e \<in> set m \<Longrightarrow> Map_get m (fst e) = Some (snd e)"
  by (induction m) (auto simp: rev_image_eqI)

lemma Map_get_set: "Map_get (Map_set k v m) k = Some v"
  by (induction m) auto

lemma Map_set_ne: "Map_set k v m \<noteq> []"
  by (cases m) (auto split: if_splits)

lemma fst_slowest_scan:
  "m \<noteq> [] \<Longrightarrow> fst (slowest_scan m) = min 100 (Min ((\<lambda>e. rp_progress (snd e)) ` set m))"
  unfolding slowest_scan_def slowest_scan_fold
  using below_iff_slowest [of m 100] slowest_Min [of m] by auto

lemma initRegionTracking_distinct: "distinct (map fst (regionProgress (initRegionTracking regions s)))"
proof -
  have "distinct (map fst m) \<Longrightarrow>
      distinct (map fst (fold (\<lambda>region m. Map_set region \<lparr>rp_progress = 0, rp_message = ''Starting...''\<rparr> m) regions m))"
    for m :: RegionMap
    by (induction regions arbitrary: m) (simp_all add: Map_set_distinct)
  from this [of "[]"] show ?thesis by (simp add: initRegionTracking_def)
qed

lemma updateRegionProgress_distinct:
  "distinct (map fst (regionProgress s)) \<Longrightarrow>
   distinct (map fst (regionProgress (updateRegionProgress region prog msg s)))"
  by (simp add: updateRegionProgress_def updateScanStatus_def Let_def Map_set_distinct Map_set_ne)

lemma two_regions_eval:
  "regionProgress two_regions =
     [(''A'', \<lparr>rp_progress = 80, rp_message = ''a''\<rparr>),
      (''B'', \<lparr>rp_progress = 0, rp_message = ''Starting...''\<rparr>)]"
  "totalRegions two_regions = 2"
  by (simp_all add: two_regions_def updateRegionProgress_def initRegionTracking_def
      initialTracker_def updateScanStatus_def Let_def)

subsection \<open>Region aggregation\<close>

text \<open>
  C1, amended. The keys of a \<open>Map\<close> are distinct (every operation of the module keeps
  them so: \<open>initRegionTracking_distinct\<close>, \<open>updateRegionProgress_distinct\<close>). After
  \<open>updateRegionProgress(region, prog, msg)\<close> the region is stored with the new values,
  the phase is \<open>fetching\<close> and the overall progress is the least progress of the tracked
  regions, capped at the loop's starting value 100: it is the minimum across the tracked
  regions whenever no region is above 100. When some region is below 100, the slowest
  region \<open>e\<close> (the first in insertion order among those of least progress) decides the
  message: the displayed message is \<open>e\<close>'s message (the call's \<open>msg\<close> if that message is
  empty) followed by the label \<open>" (" + region + ")"\<close> when \<open>totalRegions > 1\<close>.
\<close>

theorem updateRegionProgress_slowest:
  assumes "distinct (map fst (regionProgress s))"
  shows "let s' = updateRegionProgress region prog msg s;
             m = regionProgress s';
             e = slowest m
         in m = Map_set region \<lparr>rp_progress = prog, rp_message = msg\<rparr> (regionProgress s)
          \<and> Map_get m region = Some \<lparr>rp_progress = prog, rp_message = msg\<rparr>
          \<and> phase (currentStatus s') = Fetching
          \<and> progress (currentStatus s') = Some (min 100 (Min ((\<lambda>e. rp_progress (snd e)) ` set m)))
          \<and> ((\<forall>e' \<in> set m. rp_progress (snd e') \<le> 100) \<longrightarrow>
                progress (currentStatus s') = Some (Min ((\<lambda>e. rp_progress (snd e)) ` set m)))
          \<and> (rp_progress (snd e) < 100 \<longrightarrow>
                (\<exists>i < length m. m ! i = e
                    \<and> (\<forall>j < i. rp_progress (snd e) < rp_progress (snd (m ! j))))
              \<and> (\<forall>e' \<in> set m. rp_progress (snd e) \<le> rp_progress (snd e'))
              \<and> progress (currentStatus s') = Some (rp_progress (snd e))
              \<and> message (currentStatus s') =
                  (if rp_message (snd e) = [] then msg else rp_message (snd e))
                  @ (if totalRegions s > 1 then '' ('' @ fst e @ '')'' else []))"
proof -
  define m where "m = Map_set region \<lparr>rp_progress = prog, rp_message = msg\<rparr> (regionProgress s)"
  have ne: "m \<noteq> []" by (simp add: m_def Map_set_ne)
  have dist: "distinct (map fst m)" using assms by (simp add: m_def Map_set_distinct)
  have stored: "Map_get m region = Some \<lparr>rp_progress = prog, rp_message = msg\<rparr>"
    by (simp add: m_def Map_get_set)
  have scan: "slowest_scan m =
      (if rp_progress (snd (slowest m)) < 100
       then (rp_progress (snd (slowest m)), fst (slowest m)) else (100, []))"
    unfolding slowest_scan_def slowest_scan_fold using below_iff_slowest [OF ne, of 100] by simp
  have inm: "slowest m \<in> set m" using ne by (rule slowest_in)
  have get: "Map_get m (fst (slowest m)) = Some (snd (slowest m))"
    using dist inm by (rule Map_get_in)
  have least: "\<forall>e' \<in> set m. rp_progress (snd (slowest m)) \<le> rp_progress (snd e')"
    using ne by (simp add: slowest_Min)
  have first: "\<exists>i < length m. m ! i = slowest m
      \<and> (\<forall>j < i. rp_progress (snd (slowest m)) < rp_progress (snd (m ! j)))"
    using ne by (rule slowest_first)
  have capped: "(\<forall>e' \<in> set m. rp_progress (snd e') \<le> 100) \<longrightarrow>
      min 100 (Min ((\<lambda>e. rp_progress (snd e)) ` set m)) = Min ((\<lambda>e. rp_progress (snd e)) ` set m)"
    using ne inm by (auto simp: min_def slowest_Min [symmetric])
  have len: "length m > 0" using ne by simp
  have st: "phase (currentStatus (updateRegionProgress region prog msg s)) = Fetching
      \<and> regionProgress (updateRegionProgress region prog msg s) = m
      \<and> progress (currentStatus (updateRegionProgress region prog msg s))
          = Some (min 100 (Min ((\<lambda>e. rp_progress (snd e)) ` set m)))
      \<and> (rp_progress (snd (slowest m)) < 100 \<longrightarrow>
            progress (currentStatus (updateRegionProgress region prog msg s))
              = Some (rp_progress (snd (slowest m)))
          \<and> message (currentStatus (updateRegionProgress region prog msg s)) =
                  (if rp_message (snd (slowest m)) = [] then msg else rp_message (snd (slowest m)))
                  @ (if totalRegions s > 1 then '' ('' @ fst (slowest m) @ '')'' else []))"
    unfolding updateRegionProgress_def m_def [symmetric] Let_def
    using len get fst_slowest_scan [OF ne]
    by (simp add: scan updateScanStatus_def spread_def spread_field_def no_update_def
        message_or_def regionLabel_def)
  show ?thesis
    unfolding Let_def using st stored least first capped m_def by auto
qed

text \<open>
  The example of the specification: A at 80 and B tracked, then
  \<open>updateRegionProgress('B', 30, 'b')\<close>. The overall progress is 30; the displayed
  message is B's message with the region label. A later \<open>updateRegionProgress\<close> for A
  leaves both as they are.
\<close>

theorem updateRegionProgress_slowest_witness:
  "distinct (map fst (regionProgress two_regions))
   \<and> phase (currentStatus (updateRegionProgress ''B'' 30 ''b'' two_regions)) = Fetching
   \<and> progress (currentStatus (updateRegionProgress ''B'' 30 ''b'' two_regions)) = Some 30
   \<and> message (currentStatus (updateRegionProgress ''B'' 30 ''b'' two_regions)) = ''b (B)''
   \<and> progress (currentStatus (updateRegionProgress ''A'' 80 ''a''
                 (updateRegionProgress ''B'' 30 ''b'' two_regions))) = Some 30
   \<and> message (currentStatus (updateRegionProgress ''A'' 80 ''a''
                 (updateRegionProgress ''B'' 30 ''b'' two_regions))) = ''b (B)''"
proof -
  have d: "distinct (map fst (regionProgress two_regions))"
    by (simp add: two_regions_eval)
  have again: "progress (currentStatus (updateRegionProgress ''A'' 80 ''a''
                 (updateRegionProgress ''B'' 30 ''b'' two_regions))) = Some 30
   \<and> message (currentStatus (updateRegionProgress ''A'' 80 ''a''
                 (updateRegionProgress ''B'' 30 ''b'' two_regions))) = ''b (B)''"
    by (simp add: updateRegionProgress_def two_regions_eval slowest_scan_def slowest_step_def
      updateScanStatus_def spread_def spread_field_def no_update_def message_or_def
      regionLabel_def Let_def)
  show ?thesis
    using d again updateRegionProgress_slowest [OF d, of "''B''" 30 "''b''"]
    by (simp add: Let_def two_regions_eval slowest_def)
qed

text \<open>
  C1 as stated fails on the message: with both regions registered by
  \<open>initRegionTracking\<close>, B is the slowest region and its message is \<open>b\<close>, and the
  displayed message is not \<open>b\<close> (it is \<open>b (B)\<close>).
\<close>

theorem displayed_message_counterexample:
  "progress (currentStatus (updateRegionProgress ''B'' 30 ''b'' two_regions)) = Some 30
   \<and> Map_get (regionProgress (updateRegionProgress ''B'' 30 ''b'' two_regions)) ''B''
       = Some \<lparr>rp_progress = 30, rp_message = ''b''\<rparr>
   \<and> message (currentStatus (updateRegionProgress ''B'' 30 ''b'' two_regions)) \<noteq> ''b''"
  by (simp add: updateRegionProgress_def two_regions_eval slowest_scan_def slowest_step_def
      updateScanStatus_def spread_def spread_field_def no_update_def message_or_def
      regionLabel_def Let_def)

subsection \<open>Clearing the region map\<close>

text \<open>
  C4, amended. \<open>clearRegionTracking\<close> empties the map, resets \<open>totalRegions\<close> and
  leaves the scan status as it is. It does not switch the aggregation off: the next
  \<open>updateRegionProgress(region, prog, msg)\<close> registers \<open>region\<close> as the only tracked
  region and writes phase \<open>fetching\<close>, the message \<open>msg\<close> (without a label) and the
  progress \<open>min(100, prog)\<close> into the scan status; the other fields keep their values.
\<close>

theorem clearRegionTracking_then_update:
  "currentStatus (clearRegionTracking s) = currentStatus s
   \<and> regionProgress (clearRegionTracking s) = []
   \<and> totalRegions (clearRegionTracking s) = 0
   \<and> regionProgress (updateRegionProgress region prog msg (clearRegionTracking s))
       = [(region, \<lparr>rp_progress = prog, rp_message = msg\<rparr>)]
   \<and> currentStatus (updateRegionProgress region prog msg (clearRegionTracking s))
       = (currentStatus s)\<lparr>phase := Fetching, message := msg, progress := Some (min 100 prog)\<rparr>"
  by (simp add: clearRegionTracking_def updateRegionProgress_def slowest_scan_def
      slowest_step_def updateScanStatus_def spread_def spread_field_def no_update_def
      message_or_def regionLabel_def Let_def min_def)

text \<open>
  C4 as stated fails: an \<open>updateRegionProgress\<close> after \<open>clearRegionTracking\<close>, with no
  \<open>initRegionTracking\<close> in between, changes the scan status.
\<close>

theorem update_after_clear_counterexample:
  "currentStatus (updateRegionProgress ''A'' 10 ''Scraping (1/4)...'' (clearRegionTracking initialTracker))
     \<noteq> currentStatus (clearRegionTracking initialTracker)"
  by (simp add: clearRegionTracking_def updateRegionProgress_def slowest_scan_def
      slowest_step_def updateScanStatus_def spread_def spread_field_def no_update_def
      message_or_def regionLabel_def Let_def initialTracker_def)

subsection \<open>Phase mapping\<close>
















text \<open>
  At an exact half of the linear value the roundings decide: a local progress of 29
  while fetching has the linear value 14.5, the doubles give a value just below it, and
  14 is reported; a local progress of 1 gives 0.5 exactly and 1 is reported.
\<close>

lemma calculatePhaseProgress_halves:
  "calculatePhaseProgress PFetching 29 = 14 \<and> calculatePhaseProgress PFetching 57 = 28
   \<and> calculatePhaseProgress PFetching 1 = 1 \<and> calculatePhaseProgress PFetching 3 = 2
   \<and> calculatePhaseProgress PFetching (- 7) = - 4"
  by code_simp

text \<open>
  The same in the fetching phase of a region: 67.5 percent of the scraping (30 to 70)
  is 57 percent of the fetching, whose linear value is 28.5, and 28 is reported.
\<close>

lemma calcFetchProgress_half: "calcFetchProgress Scraping (135 / 2) = 28"
  by code_simp




subsection \<open>Partial updates of the scan status\<close>

lemma spread_field_simps [simp]:
  "spread_field old None = old" "spread_field old (Some v) = v"
  by (simp_all add: spread_field_def)

text \<open>
  C9. \<open>updateScanStatus\<close> merges a partial update into the live scan status: a field
  whose key is not in the update keeps its value, a field whose key is in the update
  takes the update's value; the region map and \<open>totalRegions\<close> are not touched.
\<close>

theorem updateScanStatus_partial_merge:
  "(u_phase u = None \<longrightarrow> phase (currentStatus (updateScanStatus u s)) = phase (currentStatus s))
   \<and> (\<forall>v. u_phase u = Some v \<longrightarrow> phase (currentStatus (updateScanStatus u s)) = v)
   \<and> (u_message u = None \<longrightarrow> message (currentStatus (updateScanStatus u s)) = message (currentStatus s))
   \<and> (\<forall>v. u_message u = Some v \<longrightarrow> message (currentStatus (updateScanStatus u s)) = v)
   \<and> (u_progress u = None \<longrightarrow> progress (currentStatus (updateScanStatus u s)) = progress (currentStatus s))
   \<and> (\<forall>v. u_progress u = Some v \<longrightarrow> progress (currentStatus (updateScanStatus u s)) = v)
   \<and> (u_startedAt u = None \<longrightarrow> startedAt (currentStatus (updateScanStatus u s)) = startedAt (currentStatus s))
   \<and> (\<forall>v. u_startedAt u = Some v \<longrightarrow> startedAt (currentStatus (updateScanStatus u s)) = v)
   \<and> (u_completedAt u = None \<longrightarrow> completedAt (currentStatus (updateScanStatus u s)) = completedAt (currentStatus s))
   \<and> (\<forall>v. u_completedAt u = Some v \<longrightarrow> completedAt (currentStatus (updateScanStatus u s)) = v)
   \<and> (u_error u = None \<longrightarrow> error (currentStatus (updateScanStatus u s)) = error (currentStatus s))
   \<and> (\<forall>v. u_error u = Some v \<longrightarrow> error (currentStatus (updateScanStatus u s)) = v)
   \<and> (u_itemCount u = None \<longrightarrow> itemCount (currentStatus (updateScanStatus u s)) = itemCount (currentStatus s))
   \<and> (\<forall>v. u_itemCount u = Some v \<longrightarrow> itemCount (currentStatus (updateScanStatus u s)) = v)
   \<and> regionProgress (updateScanStatus u s) = regionProgress s
   \<and> totalRegions (updateScanStatus u s) = totalRegions s"
  by (simp add: updateScanStatus_def spread_def)

text \<open>
  An update of the scan in progress: \<open>{ phase: 'saving', progress: 95 }\<close> applied to a
  status with a message and an item count.
\<close>

theorem updateScanStatus_partial_merge_witness:
  "phase (currentStatus (updateScanStatus saving_update summarizing_tracker)) = Saving
   \<and> progress (currentStatus (updateScanStatus saving_update summarizing_tracker)) = Some 95
   \<and> message (currentStatus (updateScanStatus saving_update summarizing_tracker)) = ''Summarizing...''
   \<and> itemCount (currentStatus (updateScanStatus saving_update summarizing_tracker)) = Some 12
   \<and> startedAt (currentStatus (updateScanStatus saving_update summarizing_tracker)) = Some 1000
   \<and> completedAt (currentStatus (updateScanStatus saving_update summarizing_tracker)) = None
   \<and> error (currentStatus (updateScanStatus saving_update summarizing_tracker)) = None"
  using updateScanStatus_partial_merge [of saving_update summarizing_tracker]
  by (simp add: saving_update_def summarizing_tracker_def no_update_def)

section \<open>Properties of the merge and deduplication step\<close>

lemma enumerate_from_positions:
  "map fst (enumerate_from n xs) = [n..<n + length xs]"
  by (induction xs arbitrary: n) (auto simp: upt_rec)

lemma enumerate_from_items: "map snd (enumerate_from n xs) = xs"
  by (induction xs arbitrary: n) auto

lemma length_enumerate_from [simp]: "length (enumerate_from n xs) = length xs"
  by (induction xs arbitrary: n) simp_all

lemma dedup_loop_filter:
  "filter (\<lambda>x. canon (url x) = k) (dedup_loop canon rs seen unique)
     = filter (\<lambda>x. canon (url x) = k) unique
       @ (if k \<in> seen then [] else only_entry canon k rs)"
  by (induction rs arbitrary: seen unique) (auto simp: only_entry_def)

lemma dedup_loop_subseq:
  "\<exists>ys. dedup_loop canon rs seen unique = unique @ ys \<and> subseq ys rs"
proof (induction rs arbitrary: seen unique)
  case Nil
  then show ?case by simp
next
  case (Cons r rs)
  show ?case
  proof (cases "canon (url r) \<in> seen")
    case True
    with Cons.IH [of seen unique] show ?thesis by auto
  next
    case False
    from Cons.IH [of "insert (canon (url r)) seen" "unique @ [r]"]
    obtain ys where "dedup_loop canon rs (insert (canon (url r)) seen) (unique @ [r]) = (unique @ [r]) @ ys"
      and "subseq ys rs" by blast
    with False show ?thesis by auto
  qed
qed

lemma only_entry_sorted: "sort_key f (only_entry canon k rs) = only_entry canon k rs"
  by (simp add: only_entry_def split: option.splits)

lemma directAsSerpResults_positions:
  "map position (directAsSerpResults directUrls) = map int [0..<length directUrls]"
proof -
  have "map position (directAsSerpResults directUrls) = map int (map fst (enumerate_from 0 directUrls))"
    by (simp add: directAsSerpResults_def case_prod_beta)
  then show ?thesis by (simp add: enumerate_from_positions)
qed

lemma directAsSerpResults_urls:
  "map url (directAsSerpResults directUrls) = map d_url directUrls"
proof -
  have "map url (directAsSerpResults directUrls) = map d_url (map snd (enumerate_from 0 directUrls))"
    by (simp add: directAsSerpResults_def case_prod_beta)
  then show ?thesis by (simp add: enumerate_from_items)
qed

lemmas stub_defs =
  stub_env_def direct_A_def organic_A5_def organic_B1_def organic_C2_def strip_slash_def
  stub_cc_def stub_settings_def page_A_def page_B_def stub_extracted_def

text \<open>
  C2. The merged list is the direct URLs, numbered from position 0 in their order,
  followed by the search results. The deduplicated list is sorted by position; for every
  canonical URL it holds exactly the first candidate of the merged list with that
  canonical URL, and nothing for a canonical URL that no candidate has; candidates of
  equal position keep their merged order. In particular, when an organic result
  normalizes to the URL of the first direct URL (position 0), the only entry for that
  canonical URL is the direct one.
\<close>

theorem merge_dedup_sort:
  "allResults directUrls serpResults = directAsSerpResults directUrls @ serpResults
   \<and> map position (directAsSerpResults directUrls) = map int [0..<length directUrls]
   \<and> map url (directAsSerpResults directUrls) = map d_url directUrls
   \<and> sorted (map position (deduplicateResults env (allResults directUrls serpResults)))
   \<and> (\<forall>k. filter (\<lambda>x. normalizeUrl env (url x) = k)
              (deduplicateResults env (allResults directUrls serpResults))
            = only_entry (normalizeUrl env) k (allResults directUrls serpResults))
   \<and> (\<forall>p. subseq (filter (\<lambda>x. position x = p)
                      (deduplicateResults env (allResults directUrls serpResults)))
               (allResults directUrls serpResults))
   \<and> (\<forall>d ds organic. directUrls = d # ds \<and> organic \<in> set serpResults
          \<and> normalizeUrl env (url organic) = normalizeUrl env (d_url d) \<longrightarrow>
         filter (\<lambda>x. normalizeUrl env (url x) = normalizeUrl env (url organic))
              (deduplicateResults env (allResults directUrls serpResults))
            = [\<lparr> url = d_url d, title = d_name d, snippet = ''Direct source: '' @ d_name d,
                 position = 0 \<rparr>])"
proof -
  let ?all = "allResults directUrls serpResults"
  let ?U = "dedup_loop (normalizeUrl env) ?all {} []"
  have out: "deduplicateResults env ?all = sort_key position ?U"
    by (simp add: deduplicateResults_def)
  have one: "filter (\<lambda>x. normalizeUrl env (url x) = k) (deduplicateResults env ?all)
      = only_entry (normalizeUrl env) k ?all" for k
    unfolding out by (simp add: filter_sort dedup_loop_filter only_entry_sorted)
  obtain ys where ys: "?U = [] @ ys" "subseq ys ?all"
    using dedup_loop_subseq [of "normalizeUrl env" ?all "{}" "[]"] by blast
  have ties: "subseq (filter (\<lambda>x. position x = p) (deduplicateResults env ?all)) ?all" for p
  proof -
    have "filter (\<lambda>x. position x = p) (deduplicateResults env ?all) = filter (\<lambda>x. position x = p) ?U"
      unfolding out by (rule sort_key_stable)
    moreover have "subseq (filter (\<lambda>x. position x = p) ?U) ?U" by simp
    moreover have "subseq ?U ?all" using ys by simp
    ultimately show ?thesis using subseq_order.order_trans by metis
  qed
  have first: "only_entry (normalizeUrl env) (normalizeUrl env (d_url d)) (allResults (d # ds) serpResults)
      = [\<lparr> url = d_url d, title = d_name d, snippet = ''Direct source: '' @ d_name d, position = 0 \<rparr>]"
    for d ds
    by (simp add: only_entry_def allResults_def directAsSerpResults_def)
  have srt: "sorted (map position (deduplicateResults env ?all))"
    unfolding out by (rule sorted_sort_key)
  have ex: "filter (\<lambda>x. normalizeUrl env (url x) = normalizeUrl env (url organic))
              (deduplicateResults env ?all)
            = [\<lparr> url = d_url d, title = d_name d, snippet = ''Direct source: '' @ d_name d,
                 position = 0 \<rparr>]"
    if "directUrls = d # ds \<and> organic \<in> set serpResults
          \<and> normalizeUrl env (url organic) = normalizeUrl env (d_url d)" for d ds organic
    using that one [of "normalizeUrl env (d_url d)"] first [of d ds] by simp
  have m: "?all = directAsSerpResults directUrls @ serpResults"
    by (simp add: allResults_def)
  show ?thesis
    using m directAsSerpResults_positions directAsSerpResults_urls srt one ties ex
    by blast
qed

text \<open>
  The example of the specification: the direct URL \<open>https://a.example/\<close> at position 0
  and the organic result \<open>https://a.example\<close> at position 5.
\<close>

theorem merge_dedup_sort_witness:
  "organic_A5 \<in> set [organic_B1, organic_A5]
   \<and> position organic_A5 = 5
   \<and> normalizeUrl stub_env (url organic_A5) = normalizeUrl stub_env (d_url direct_A)
   \<and> filter (\<lambda>x. normalizeUrl stub_env (url x) = normalizeUrl stub_env (url organic_A5))
         (deduplicateResults stub_env (allResults [direct_A] [organic_B1, organic_A5]))
       = [\<lparr> url = ''https://a.example/'', title = ''A'', snippet = ''Direct source: A'',
            position = 0 \<rparr>]
   \<and> deduplicateResults stub_env (allResults [direct_A] [organic_B1, organic_A5])
       = [\<lparr> url = ''https://a.example/'', title = ''A'', snippet = ''Direct source: A'',
            position = 0 \<rparr>, organic_B1]"
proof -
  have h: "[direct_A] = direct_A # [] \<and> organic_A5 \<in> set [organic_B1, organic_A5]
      \<and> normalizeUrl stub_env (url organic_A5) = normalizeUrl stub_env (d_url direct_A)"
    by (simp add: stub_defs)
  have e: "deduplicateResults stub_env (allResults [direct_A] [organic_B1, organic_A5])
       = [\<lparr> url = ''https://a.example/'', title = ''A'', snippet = ''Direct source: A'',
            position = 0 \<rparr>, organic_B1]"
    by (simp add: stub_defs deduplicateResults_def allResults_def directAsSerpResults_def)
  have "filter (\<lambda>x. normalizeUrl stub_env (url x) = normalizeUrl stub_env (url organic_A5))
         (deduplicateResults stub_env (allResults [direct_A] [organic_B1, organic_A5]))
       = [\<lparr> url = d_url direct_A, title = d_name direct_A,
            snippet = ''Direct source: '' @ d_name direct_A, position = 0 \<rparr>]"
    using merge_dedup_sort [of "[direct_A]" "[organic_B1, organic_A5]" stub_env] h by blast
  then show ?thesis using h e by (simp add: direct_A_def organic_A5_def)
qed

section \<open>Properties of the worker pool\<close>

subsection \<open>Invariants of the loop\<close>

lemma pool_loop_invariant:
  assumes "I p"
    and "\<And>q. I q \<Longrightarrow> I (pool_refill c q)"
    and "\<And>q k. I q \<Longrightarrow> k < length (inflight q) \<Longrightarrow> I (pool_settle w h k q)"
  shows "I (pool_loop c w h sched p)"
  using assms
proof (induction c w h sched p rule: pool_loop.induct)
  case (1 c w h sched p)
  let ?q = "pool_refill c p"
  have Iq: "I ?q" using "1.prems"(1,2) by simp
  show ?case
  proof (cases "inflight ?q = []")
    case True
    then show ?thesis using Iq by (simp add: pool_loop.simps [of c w h sched p])
  next
    case False
    then have "next_choice sched (length (inflight ?q)) < length (inflight ?q)"
      by (simp add: next_choice_less)
    then have "I (pool_settle w h (next_choice sched (length (inflight ?q))) ?q)"
      using Iq "1.prems"(3) by simp
    then have "I (pool_loop c w h (tl sched) (pool_settle w h (next_choice sched (length (inflight ?q))) ?q))"
      using False "1.prems"(2,3) "1.IH" by blast
    then show ?thesis using False by (simp add: pool_loop.simps [of c w h sched p])
  qed
qed

lemma pool_loop_idle: "inflight (pool_loop c w h sched p) = []"
proof (induction c w h sched p rule: pool_loop.induct)
  case (1 c w h sched p)
  then show ?case by (simp add: pool_loop.simps [of c w h sched p])
qed

lemma pool_refill_drained:
  "1 \<le> c \<Longrightarrow> inflight (pool_refill c p) = [] \<Longrightarrow> pending (pool_refill c p) = []"
  by (auto simp: pool_refill_def Let_def)

lemma pool_loop_drained: "1 \<le> c \<Longrightarrow> pending (pool_loop c w h sched p) = []"
proof (induction c w h sched p rule: pool_loop.induct)
  case (1 c w h sched p)
  then show ?case by (simp add: pool_loop.simps [of c w h sched p] pool_refill_drained)
qed

lemma pool_refill_fields [simp]:
  "settledLog (pool_refill c p) = settledLog p"
  "shared (pool_refill c p) = shared p"
  "mset (pending (pool_refill c p)) + mset (inflight (pool_refill c p))
     = mset (pending p) + mset (inflight p)"
proof -
  show "settledLog (pool_refill c p) = settledLog p" "shared (pool_refill c p) = shared p"
    by (simp_all add: pool_refill_def Let_def)
  have "mset (drop n (pending p)) + mset (take n (pending p)) = mset (pending p)" for n
    by (metis add.commute append_take_drop_id mset_append)
  then show "mset (pending (pool_refill c p)) + mset (inflight (pool_refill c p))
     = mset (pending p) + mset (inflight p)"
    by (simp add: pool_refill_def Let_def add.assoc [symmetric])
qed

lemma mset_remove_nth:
  "k < length xs \<Longrightarrow> add_mset (xs ! k) (mset (take k xs @ drop (Suc k) xs)) = mset xs"
  by (metis add_mset_add_single id_take_nth_drop mset.simps(2) mset_append union_mset_add_mset_right)

lemma pool_settle_step:
  assumes "k < length (inflight p)"
  shows "\<exists>ev. job_of ev = inflight p ! k
           \<and> ev = event_of (\<lambda>i n. fst (w i n (shared p))) (inflight p ! k)
           \<and> settledLog (pool_settle w h k p) = settledLog p @ [ev]
           \<and> pending (pool_settle w h k p) = pending p
           \<and> add_mset (inflight p ! k) (mset (inflight (pool_settle w h k p))) = mset (inflight p)
           \<and> shared (pool_settle w h k p)
               = (case ev of
                    Succeeded n i out \<Rightarrow> snd (w i n (shared p))
                  | Failed n i e \<Rightarrow>
                      (case h of None \<Rightarrow> snd (w i n (shared p))
                               | Some f \<Rightarrow> f i n e (snd (w i n (shared p)))))"
  using mset_remove_nth [OF assms]
  by (cases "fst (w (snd (inflight p ! k)) (fst (inflight p ! k)) (shared p))")
     (simp_all add: pool_settle_def Let_def job_of_def event_of_def)

lemma pool_jobs_invariant:
  fixes p :: "('i, 'o, 'e, 's) pool"
  shows "mset (map job_of (settledLog (pool_loop c w h sched p)))
     + mset (pending (pool_loop c w h sched p)) + mset (inflight (pool_loop c w h sched p))
   = mset (map job_of (settledLog p)) + mset (pending p) + mset (inflight p)"
proof -
  define I where "I = (\<lambda>q :: ('i, 'o, 'e, 's) pool.
     mset (map job_of (settledLog q)) + mset (pending q) + mset (inflight q)
       = mset (map job_of (settledLog p)) + mset (pending p) + mset (inflight p))"
  have "I (pool_loop c w h sched p)"
  proof (rule pool_loop_invariant)
    show "I p" by (simp add: I_def)
  next
    fix q :: "('i, 'o, 'e, 's) pool"
    assume "I q"
    then show "I (pool_refill c q)" by (simp add: I_def add.assoc)
  next
    fix q :: "('i, 'o, 'e, 's) pool" and k
    assume inv: "I q" and k: "k < length (inflight q)"
    from pool_settle_step [OF k, of w h] obtain ev where
      ev: "job_of ev = inflight q ! k"
        "settledLog (pool_settle w h k q) = settledLog q @ [ev]"
        "pending (pool_settle w h k q) = pending q"
        "add_mset (inflight q ! k) (mset (inflight (pool_settle w h k q))) = mset (inflight q)"
      by blast
    show "I (pool_settle w h k q)"
      using inv unfolding I_def ev(2,3) using ev(1) ev(4) [symmetric] by simp
  qed
  then show ?thesis by (simp add: I_def)
qed

lemma pool_events_invariant:
  fixes p :: "('i, 'o, 'e, 's) pool"
  assumes indep: "\<And>i n s. fst (w i n s) = f i n"
    and start: "\<forall>ev\<in>set (settledLog p). ev = event_of f (job_of ev)"
  shows "\<forall>ev\<in>set (settledLog (pool_loop c w h sched p)). ev = event_of f (job_of ev)"
proof (rule pool_loop_invariant [where p = p])
  show "\<forall>ev\<in>set (settledLog p). ev = event_of f (job_of ev)" by (rule start)
next
  fix q :: "('i, 'o, 'e, 's) pool"
  assume "\<forall>ev\<in>set (settledLog q). ev = event_of f (job_of ev)"
  then show "\<forall>ev\<in>set (settledLog (pool_refill c q)). ev = event_of f (job_of ev)" by simp
next
  fix q :: "('i, 'o, 'e, 's) pool" and k
  assume inv: "\<forall>ev\<in>set (settledLog q). ev = event_of f (job_of ev)"
    and k: "k < length (inflight q)"
  from pool_settle_step [OF k, of w h] obtain ev where
    ev: "job_of ev = inflight q ! k"
      "ev = event_of (\<lambda>i n. fst (w i n (shared q))) (inflight q ! k)"
      "settledLog (pool_settle w h k q) = settledLog q @ [ev]"
    by blast
  have "ev = event_of f (job_of ev)"
    using ev(2) unfolding ev(1) by (simp add: indep)
  then show "\<forall>ev\<in>set (settledLog (pool_settle w h k q)). ev = event_of f (job_of ev)"
    using inv by (simp add: ev(3))
qed

lemma pool_shared_invariant:
  fixes p :: "('i, 'o, 'e, 's) pool"
  assumes worker: "\<And>i n s. g (snd (w i n s)) = g s @ cw i n"
    and handler: "\<And>i n e s. g (h i n e s) = g s @ ch i n e"
  shows "g (shared (pool_loop c w (Some h) sched p))
     = g (shared p) @ concat (map (contribution cw ch)
          (drop (length (settledLog p)) (settledLog (pool_loop c w (Some h) sched p))))
   \<and> take (length (settledLog p)) (settledLog (pool_loop c w (Some h) sched p)) = settledLog p"
proof -
  define I where "I = (\<lambda>q :: ('i, 'o, 'e, 's) pool.
     g (shared q) = g (shared p) @ concat (map (contribution cw ch)
          (drop (length (settledLog p)) (settledLog q)))
     \<and> take (length (settledLog p)) (settledLog q) = settledLog p)"
  have "I (pool_loop c w (Some h) sched p)"
  proof (rule pool_loop_invariant)
    show "I p" by (simp add: I_def)
  next
    fix q :: "('i, 'o, 'e, 's) pool"
    assume "I q"
    then show "I (pool_refill c q)" by (simp add: I_def)
  next
    fix q :: "('i, 'o, 'e, 's) pool" and k
    assume inv: "I q" and k: "k < length (inflight q)"
    from pool_settle_step [OF k, of w "Some h"] obtain ev where
      ev: "settledLog (pool_settle w (Some h) k q) = settledLog q @ [ev]"
        "shared (pool_settle w (Some h) k q)
               = (case ev of
                    Succeeded n i out \<Rightarrow> snd (w i n (shared q))
                  | Failed n i e \<Rightarrow>
                      (case Some h of None \<Rightarrow> snd (w i n (shared q))
                               | Some f \<Rightarrow> f i n e (snd (w i n (shared q)))))"
      by blast
    have len: "length (settledLog p) \<le> length (settledLog q)"
      using inv unfolding I_def by (metis length_take min.cobounded1)
    have "g (shared (pool_settle w (Some h) k q)) = g (shared q) @ contribution cw ch ev"
      unfolding ev(2) by (cases ev) (simp_all add: worker handler)
    then show "I (pool_settle w (Some h) k q)"
      using inv len unfolding I_def ev(1) by simp
  qed
  then show ?thesis by (simp add: I_def)
qed

subsection \<open>The run of the pool\<close>

lemma mset_concat_map: "mset (concat (map h xs)) = (\<Sum>x\<in>#mset xs. mset (h x))"
  by (induction xs) simp_all

lemma mset_concat_map_cong:
  "mset xs = mset ys \<Longrightarrow> mset (concat (map h xs)) = mset (concat (map h ys))"
  by (simp add: mset_concat_map)

lemma settled_one: "length (settled_output ev) + length (settled_error ev) = 1"
  by (cases ev) simp_all

lemma length_outputs_errors:
  "length (concat (map settled_output evs)) + length (concat (map settled_error evs)) = length evs"
proof (induction evs)
  case Nil
  then show ?case by simp
next
  case (Cons ev evs)
  then show ?case using settled_one [of ev] by simp
qed

lemma length_successes_failures:
  "length (successes outcome inputs) + length (failures outcome inputs) = length inputs"
  using length_outputs_errors [of "map (event_of outcome) (enumerate_from 0 inputs)"]
  by (simp add: successes_def failures_def comp_def)

lemma pool_run_settles_all:
  assumes "1 \<le> c"
  shows "pending (pool_run inputs w c h sched s) = []"
    and "inflight (pool_run inputs w c h sched s) = []"
    and "mset (map job_of (settledLog (pool_run inputs w c h sched s))) = mset (enumerate_from 0 inputs)"
proof -
  show p: "pending (pool_run inputs w c h sched s) = []"
    unfolding pool_run_def using assms by (rule pool_loop_drained)
  show i: "inflight (pool_run inputs w c h sched s) = []"
    unfolding pool_run_def by (rule pool_loop_idle)
  show "mset (map job_of (settledLog (pool_run inputs w c h sched s))) = mset (enumerate_from 0 inputs)"
    using pool_jobs_invariant [of c w h sched
        "\<lparr>pending = enumerate_from 0 inputs, inflight = [], settledLog = [], shared = s\<rparr>"]
      p i
    by (simp add: pool_run_def)
qed

lemma pool_run_log:
  assumes "1 \<le> c" and "\<And>i n s. fst (w i n s) = f i n"
  shows "mset (settledLog (pool_run inputs w c h sched s))
     = mset (map (event_of f) (enumerate_from 0 inputs))"
proof -
  let ?P = "pool_run inputs w c h sched s"
  have "\<forall>ev\<in>set (settledLog ?P). ev = event_of f (job_of ev)"
    unfolding pool_run_def by (rule pool_events_invariant) (simp_all add: assms(2))
  then have "map (event_of f) (map job_of (settledLog ?P)) = settledLog ?P"
    by (simp add: map_idI)
  then have "mset (settledLog ?P) = image_mset (event_of f) (mset (map job_of (settledLog ?P)))"
    by (metis mset_map)
  then show ?thesis
    unfolding pool_run_settles_all(3) [OF assms(1)] by simp
qed

lemma pool_results_outcome:
  assumes "1 \<le> c" and "\<And>i n s. fst (w i n s) = f i n"
  shows "mset (pool_results (pool_run inputs w c h sched s)) = mset (successes f inputs)"
    and "mset (pool_error_calls (pool_run inputs w c h sched s)) = mset (failures f inputs)"
proof -
  have log: "mset (settledLog (pool_run inputs w c h sched s))
      = mset (map (event_of f) (enumerate_from 0 inputs))"
    by (rule pool_run_log [OF assms(1)]) (rule assms(2))
  show "mset (pool_results (pool_run inputs w c h sched s)) = mset (successes f inputs)"
    unfolding pool_results_def successes_def
    using mset_concat_map_cong [OF log, of settled_output] by (simp add: comp_def)
  show "mset (pool_error_calls (pool_run inputs w c h sched s)) = mset (failures f inputs)"
    unfolding pool_error_calls_def failures_def
    using mset_concat_map_cong [OF log, of settled_error] by (simp add: comp_def)
qed

lemma contribution_errors:
  "contribution (\<lambda>i n. []) (\<lambda>i n e. [(i, n, e)]) ev = settled_error ev"
  by (cases ev) simp_all

lemma recorded_calls:
  "shared (pool_run inputs (pure_worker f) c (Some recording_onError) sched [])
     = pool_error_calls (pool_run inputs (pure_worker f) c (Some recording_onError) sched [])"
proof -
  have c: "contribution (\<lambda>i n. []) (\<lambda>i n e. [(i, n, e)]) = settled_error"
    by (rule ext) (rule contribution_errors)
  show ?thesis
    using pool_shared_invariant [where g = "\<lambda>s. s" and w = "pure_worker f"
        and cw = "\<lambda>i n. []" and h = recording_onError and ch = "\<lambda>i n e. [(i, n, e)]"
        and c = c and sched = sched
        and p = "\<lparr>pending = enumerate_from 0 inputs, inflight = [], settledLog = [], shared = []\<rparr>"]
    by (simp add: pure_worker_def recording_onError_def pool_run_def pool_error_calls_def c)
qed

text \<open>
  C3. With a concurrency of at least 1 and for every schedule, the run settles every
  item exactly once (nothing is left pending or outstanding, and the settled jobs are
  the numbered inputs), and the returned collection has one entry for each item that
  did not fail: its size is the number \<open>K\<close> of inputs minus the number of calls to the
  error callback. When the outcome of the operation on an item does not depend on the
  caller's state, \<open>F\<close> of the \<open>K\<close> invocations fail, where \<open>F\<close> is the number of
  failing inputs: the returned collection is the outputs of the other \<open>K - F\<close> items,
  and the error callback is called \<open>F\<close> times, once for each failing item with the
  item, its index and the error. A callback that records its calls ends with exactly
  those calls.
\<close>

theorem worker_pool_failure_isolation:
  assumes "1 \<le> concurrency"
  shows "pending (pool_run inputs worker concurrency onError schedule s) = []
   \<and> inflight (pool_run inputs worker concurrency onError schedule s) = []
   \<and> mset (map job_of (settledLog (pool_run inputs worker concurrency onError schedule s)))
       = mset (enumerate_from 0 inputs)
   \<and> length (pool_results (pool_run inputs worker concurrency onError schedule s))
       = length inputs - length (pool_error_calls (pool_run inputs worker concurrency onError schedule s))
   \<and> fst (workerPoolCollect inputs worker concurrency onError schedule s)
       = pool_results (pool_run inputs worker concurrency onError schedule s)
   \<and> ((\<forall>item index s'. fst (worker item index s') = outcome item index) \<longrightarrow>
         mset (pool_results (pool_run inputs worker concurrency onError schedule s))
           = mset (successes outcome inputs)
       \<and> mset (pool_error_calls (pool_run inputs worker concurrency onError schedule s))
           = mset (failures outcome inputs)
       \<and> length (pool_results (pool_run inputs worker concurrency onError schedule s))
           = length inputs - length (failures outcome inputs)
       \<and> length (pool_error_calls (pool_run inputs worker concurrency onError schedule s))
           = length (failures outcome inputs))
   \<and> shared (pool_run inputs (pure_worker outcome) concurrency (Some recording_onError) schedule [])
       = pool_error_calls
           (pool_run inputs (pure_worker outcome) concurrency (Some recording_onError) schedule [])"
proof -
  let ?P = "pool_run inputs worker concurrency onError schedule s"
  note all = pool_run_settles_all [OF assms, of inputs worker onError schedule s]
  have "length (settledLog ?P) = length inputs"
    using all(3) by (metis length_enumerate_from length_map size_mset)
  then have len: "length (pool_results ?P) + length (pool_error_calls ?P) = length inputs"
    using length_outputs_errors [of "settledLog ?P"]
    by (simp add: pool_results_def pool_error_calls_def)
  have spec: "mset (pool_results ?P) = mset (successes outcome inputs)
       \<and> mset (pool_error_calls ?P) = mset (failures outcome inputs)
       \<and> length (pool_results ?P) = length inputs - length (failures outcome inputs)
       \<and> length (pool_error_calls ?P) = length (failures outcome inputs)"
    if indep: "\<forall>item index s'. fst (worker item index s') = outcome item index"
  proof -
    have r: "mset (pool_results ?P) = mset (successes outcome inputs)"
      and e: "mset (pool_error_calls ?P) = mset (failures outcome inputs)"
      by (rule pool_results_outcome [OF assms]; simp add: indep)+
    have "length (pool_error_calls ?P) = length (failures outcome inputs)"
      using e by (rule mset_eq_length)
    then show ?thesis using r e len by simp
  qed
  show ?thesis
    using all(1,2,3) len spec
      recorded_calls [where inputs = inputs and f = outcome and c = concurrency and sched = schedule]
    by (simp add: workerPoolCollect_def Let_def)
qed

text \<open>Three items, the second failing, two workers, the second started settling first.\<close>

theorem worker_pool_failure_isolation_witness:
  "(1::nat) \<le> 2
   \<and> (\<forall>item index s'. fst (pure_worker flaky item index (s' :: (string \<times> nat \<times> string) list))
         = flaky item index)
   \<and> failures flaky [''a'', ''bad'', ''cc''] = [(''bad'', 1, ''boom'')]
   \<and> length (pool_results (pool_run [''a'', ''bad'', ''cc''] (pure_worker flaky) 2
                 (Some recording_onError) [1, 0] [])) = 2
   \<and> mset (pool_error_calls (pool_run [''a'', ''bad'', ''cc''] (pure_worker flaky) 2
                 (Some recording_onError) [1, 0] [])) = {#(''bad'', 1, ''boom'')#}
   \<and> mset (shared (pool_run [''a'', ''bad'', ''cc''] (pure_worker flaky) 2
                 (Some recording_onError) [1, 0] [])) = {#(''bad'', 1, ''boom'')#}"
proof -
  have c: "(1::nat) \<le> 2" by simp
  have p: "\<forall>item index s'. fst (pure_worker flaky item index (s' :: (string \<times> nat \<times> string) list))
         = flaky item index"
    by (simp add: pure_worker_def)
  have f: "failures flaky [''a'', ''bad'', ''cc''] = [(''bad'', 1, ''boom'')]"
    by (simp add: failures_def event_of_def flaky_def)
  show ?thesis
    using worker_pool_failure_isolation [OF c, of "[''a'', ''bad'', ''cc'']" "pure_worker flaky"
        "Some recording_onError" "[1, 0]" "[]" flaky] p f c
    by simp
qed

section \<open>Properties of the extraction step\<close>

lemma locate_outcome: "fst (locate env cc extracted st) = location_of env cc extracted"
  by (simp add: locate_def location_of_def split: option.splits sum.splits)

lemma reportRegionProgress_frame [simp]:
  "errorList (reportRegionProgress r sub sp msg st) = errorList st"
  "calls (reportRegionProgress r sub sp msg st) = calls st"
  "completed (reportRegionProgress r sub sp msg st) = completed st"
  by (simp_all add: reportRegionProgress_def)

lemma count_completed_frame [simp]:
  "errorList (count_completed r sub verb n st) = errorList st"
  "calls (count_completed r sub verb n st) = calls st"
  by (simp_all add: count_completed_def Let_def)

lemma log_call_frame [simp]:
  "errorList (log_call c st) = errorList st"
  "calls (log_call c st) = calls st @ [c]"
  "tracker (log_call c st) = tracker st"
  by (simp_all add: log_call_def)

lemma push_error_frame [simp]:
  "errorList (push_error env src msg st)
     = errorList st @ [\<lparr>err_source = src, err_message = msg, err_timestamp = clock env\<rparr>]"
  "calls (push_error env src msg st) = calls st"
  "tracker (push_error env src msg st) = tracker st"
  by (simp_all add: push_error_def)

lemma locate_frame [simp]: "errorList (snd (locate env cc extracted st)) = errorList st"
  by (simp add: locate_def split: option.splits sum.splits)

lemma extract_worker_outcome:
  "fst (extractAndNormalize_worker env cc settings regionName n scraped index st)
     = extract_outcome env cc settings scraped index"
  by (simp add: extractAndNormalize_worker_def extract_outcome_def Let_def locate_outcome
      split: sum.splits option.splits)

lemma extract_worker_errors:
  "errorList (snd (extractAndNormalize_worker env cc settings regionName n scraped index st))
     = errorList st"
  by (simp add: extractAndNormalize_worker_def Let_def split: sum.splits option.splits)

lemma extract_onError_errors:
  "errorList (extractAndNormalize_onError env scraped index e st)
     = errorList st @ [extract_error env (scraped, index, e)]"
  by (simp add: extractAndNormalize_onError_def extract_error_def)

lemma contribution_handler_only:
  "contribution (\<lambda>i n. []) (\<lambda>i n e. [f (i, n, e)]) ev = map f (settled_error ev)"
  by (cases ev) simp_all

lemma concat_map_map: "concat (map (\<lambda>x. map f (g x)) xs) = map f (concat (map g xs))"
  by (induction xs) simp_all

text \<open>
  C7. With a concurrency of at least 1 and for every schedule, the items returned by
  \<open>extractAndNormalize\<close> are those of the pages whose extraction succeeds, and the
  run's error list grows by exactly one \<open>NonFatalError\<close> with source \<open>Extract\<close> for
  each page whose extraction fails; every page gives one or the other. An extraction
  that returns \<open>null\<close> fails with the error \<open>Extraction returned null\<close>, and one that
  throws fails with the error thrown.
\<close>

theorem extraction_failures_are_errors:
  assumes "1 \<le> maxConcurrentScrapes env"
  shows "mset (fst (extractAndNormalize env cc settings scrapedContent regionName schedule st))
       = mset (successes (extract_outcome env cc settings) scrapedContent)
   \<and> (\<exists>new. errorList (snd (extractAndNormalize env cc settings scrapedContent regionName schedule st))
              = errorList st @ new
          \<and> mset new = mset (map (extract_error env)
                               (failures (extract_outcome env cc settings) scrapedContent))
          \<and> (\<forall>e\<in>set new. err_source e = ''Extract''))
   \<and> length (fst (extractAndNormalize env cc settings scrapedContent regionName schedule st))
       + length (errorList (snd (extractAndNormalize env cc settings scrapedContent regionName schedule st)))
       = length scrapedContent + length (errorList st)
   \<and> (\<forall>scraped index.
         (extractContent env (sc_content scraped) (sc_url scraped) (sc_imageUrl scraped) cc
             (or_string (uiLanguage settings) ''en'') (sc_category scraped) = Inr None
           \<longrightarrow> extract_outcome env cc settings scraped index = Inl ''Extraction returned null'')
       \<and> (\<forall>e. extractContent env (sc_content scraped) (sc_url scraped) (sc_imageUrl scraped) cc
             (or_string (uiLanguage settings) ''en'') (sc_category scraped) = Inl e
           \<longrightarrow> extract_outcome env cc settings scraped index = Inl e))"
proof -
  let ?w = "extractAndNormalize_worker env cc settings regionName (length scrapedContent)"
  let ?h = "extractAndNormalize_onError env"
  let ?f = "extract_outcome env cc settings"
  let ?P = "pool_run scrapedContent ?w (maxConcurrentScrapes env) (Some ?h) schedule
              (st\<lparr>completed := 0\<rparr>)"
  have run: "extractAndNormalize env cc settings scrapedContent regionName schedule st
      = (pool_results ?P, shared ?P)"
    by (simp add: extractAndNormalize_def workerPoolCollect_def Let_def)
  have res: "mset (pool_results ?P) = mset (successes ?f scrapedContent)"
    and err: "mset (pool_error_calls ?P) = mset (failures ?f scrapedContent)"
    by (rule pool_results_outcome [OF assms]; rule extract_worker_outcome)+
  have A: "errorList (shared ?P)
      = errorList (st\<lparr>completed := 0\<rparr>)
        @ concat (map (contribution (\<lambda>i n. []) (\<lambda>i n e. [extract_error env (i, n, e)]))
            (settledLog ?P))"
    unfolding pool_run_def
    using pool_shared_invariant [where g = errorList and w = ?w and h = ?h
        and cw = "\<lambda>i n. []" and ch = "\<lambda>i n e. [extract_error env (i, n, e)]"
        and c = "maxConcurrentScrapes env" and sched = schedule
        and p = "\<lparr>pending = enumerate_from 0 scrapedContent, inflight = [], settledLog = [],
                   shared = st\<lparr>completed := 0\<rparr>\<rparr>"]
    by (simp add: extract_worker_errors extract_onError_errors)
  have B: "contribution (\<lambda>i n. []) (\<lambda>i n e. [extract_error env (i, n, e)])
      = (\<lambda>ev. map (extract_error env) (settled_error ev))"
    by (rule ext) (rule contribution_handler_only)
  have new: "errorList (shared ?P) = errorList st @ map (extract_error env) (pool_error_calls ?P)"
    unfolding A B by (simp add: concat_map_map pool_error_calls_def)
  have msetnew: "mset (map (extract_error env) (pool_error_calls ?P))
      = mset (map (extract_error env) (failures ?f scrapedContent))"
    using err by simp
  have src: "\<forall>e\<in>set (map (extract_error env) (pool_error_calls ?P)). err_source e = ''Extract''"
    by (simp add: extract_error_def)
  have "length (pool_results ?P) = length (successes ?f scrapedContent)"
    using res by (rule mset_eq_length)
  moreover have "length (pool_error_calls ?P) = length (failures ?f scrapedContent)"
    using err by (rule mset_eq_length)
  ultimately have len: "length (pool_results ?P) + length (errorList (shared ?P))
      = length scrapedContent + length (errorList st)"
    using length_successes_failures [of ?f scrapedContent] by (simp add: new)
  have null: "\<forall>scraped index.
         (extractContent env (sc_content scraped) (sc_url scraped) (sc_imageUrl scraped) cc
             (or_string (uiLanguage settings) ''en'') (sc_category scraped) = Inr None
           \<longrightarrow> ?f scraped index = Inl ''Extraction returned null'')
       \<and> (\<forall>e. extractContent env (sc_content scraped) (sc_url scraped) (sc_imageUrl scraped) cc
             (or_string (uiLanguage settings) ''en'') (sc_category scraped) = Inl e
           \<longrightarrow> ?f scraped index = Inl e)"
    by (simp add: extract_outcome_def)
  show ?thesis
    unfolding run fst_conv snd_conv
    using res new msetnew src len null by blast
qed

text \<open>Two pages, the extraction of the second returning \<open>null\<close>.\<close>

theorem extraction_failures_are_errors_witness:
  "1 \<le> maxConcurrentScrapes stub_env
   \<and> extractContent stub_env (sc_content page_B) (sc_url page_B) (sc_imageUrl page_B) stub_cc
        (or_string (uiLanguage stub_settings) ''en'') (sc_category page_B) = Inr None
   \<and> extract_outcome stub_env stub_cc stub_settings page_B 1 = Inl ''Extraction returned null''
   \<and> mset (fst (extractAndNormalize stub_env stub_cc stub_settings [page_A, page_B] ''Region''
                  [1] fresh_state)) = {#item_A#}
   \<and> length (fst (extractAndNormalize stub_env stub_cc stub_settings [page_A, page_B] ''Region''
                  [1] fresh_state))
       + length (errorList (snd (extractAndNormalize stub_env stub_cc stub_settings
                  [page_A, page_B] ''Region'' [1] fresh_state))) = 2
   \<and> (\<exists>new. errorList (snd (extractAndNormalize stub_env stub_cc stub_settings [page_A, page_B]
                  ''Region'' [1] fresh_state)) = new
          \<and> mset new = {#\<lparr> err_source = ''Extract'',
                  err_message = ''Failed to extract: https://b.example - Extraction returned null'',
                  err_timestamp = 1000000000000 \<rparr>#})"
proof -
  note t = extraction_failures_are_errors [of stub_env stub_cc stub_settings "[page_A, page_B]"
      "''Region''" "[1]" fresh_state]
  have conc: "1 \<le> maxConcurrentScrapes stub_env" by (simp add: stub_env_def)
  have nul: "extractContent stub_env (sc_content page_B) (sc_url page_B) (sc_imageUrl page_B) stub_cc
        (or_string (uiLanguage stub_settings) ''en'') (sc_category page_B) = Inr None"
    by (simp add: stub_defs)
  have oA: "extract_outcome stub_env stub_cc stub_settings page_A 0 = Inr item_A"
    by (simp add: extract_outcome_def location_of_def item_A_def stub_defs or_string_def)
  have oB: "extract_outcome stub_env stub_cc stub_settings page_B index = Inl ''Extraction returned null''"
    for index
    using t [OF conc] nul by blast
  have s: "successes (extract_outcome stub_env stub_cc stub_settings) [page_A, page_B] = [item_A]"
    and f: "failures (extract_outcome stub_env stub_cc stub_settings) [page_A, page_B]
        = [(page_B, 1, ''Extraction returned null'')]"
    by (simp_all add: successes_def failures_def event_of_def oA oB)
  have e: "extract_error stub_env (page_B, index, ''Extraction returned null'')
      = \<lparr> err_source = ''Extract'',
          err_message = ''Failed to extract: https://b.example - Extraction returned null'',
          err_timestamp = 1000000000000 \<rparr>" for index
    by (simp add: extract_error_def stub_defs)
  show ?thesis
    using t [OF conc] conc nul oB
    unfolding s f by (auto simp: fresh_state_def e)
qed

text \<open>
  C10. The URL of the item of a successful extraction is the extracted article URL when
  there is one (and it is not the empty string), otherwise the scraped URL; the item's id
  is \<open>generateId\<close> of \<open>search:\<close> followed by that URL, so two extractions with the same
  final URL give the same id.
\<close>

theorem item_url_and_id:
  assumes "extractAndNormalize_worker env cc settings regionName n scraped index st = (Inr item, st')"
  shows "\<exists>extracted.
           extractContent env (sc_content scraped) (sc_url scraped) (sc_imageUrl scraped) cc
             (or_string (uiLanguage settings) ''en'') (sc_category scraped) = Inr (Some extracted)
         \<and> ni_url item = finalUrl extracted scraped
         \<and> (\<forall>u. ex_articleUrl extracted = Some u \<and> u \<noteq> [] \<longrightarrow> ni_url item = u)
         \<and> (ex_articleUrl extracted = None \<or> ex_articleUrl extracted = Some []
               \<longrightarrow> ni_url item = sc_url scraped)
         \<and> ni_id item = generateId env (''search:'' @ ni_url item)
         \<and> (\<forall>cc2 settings2 regionName2 n2 scraped2 index2 st2 item2 st2'.
               extractAndNormalize_worker env cc2 settings2 regionName2 n2 scraped2 index2 st2
                 = (Inr item2, st2')
               \<and> ni_url item2 = ni_url item \<longrightarrow> ni_id item2 = ni_id item)"
proof -
  have id: "ni_id i = generateId env (''search:'' @ ni_url i)"
    if "extractAndNormalize_worker env c s r m p k t = (Inr i, t')" for c s r m p k t i t'
    using that
    by (auto simp: extractAndNormalize_worker_def toNormalizedItem_def Let_def
        split: sum.splits option.splits)
  from assms obtain extracted location where
    ex: "extractContent env (sc_content scraped) (sc_url scraped) (sc_imageUrl scraped) cc
             (or_string (uiLanguage settings) ''en'') (sc_category scraped) = Inr (Some extracted)"
    and it: "item = toNormalizedItem env scraped extracted location"
    by (auto simp: extractAndNormalize_worker_def Let_def split: sum.splits option.splits)
  have u: "ni_url item = finalUrl extracted scraped"
    by (simp add: it toNormalizedItem_def)
  have same: "\<forall>cc2 settings2 regionName2 n2 scraped2 index2 st2 item2 st2'.
               extractAndNormalize_worker env cc2 settings2 regionName2 n2 scraped2 index2 st2
                 = (Inr item2, st2')
               \<and> ni_url item2 = ni_url item \<longrightarrow> ni_id item2 = ni_id item"
    using id [OF assms] id by metis
  show ?thesis
    using ex u id [OF assms] same
    by (intro exI [of _ extracted]) (auto simp: finalUrl_def or_string_def)
qed

text \<open>The page \<open>https://a.example/\<close>, whose extraction gives the article URL \<open>https://a.example/story\<close>.\<close>

theorem item_url_and_id_witness:
  "fst (extractAndNormalize_worker stub_env stub_cc stub_settings ''Region'' 2 page_A 0 fresh_state)
     = Inr item_A
   \<and> ni_url item_A = ''https://a.example/story''
   \<and> ni_id item_A = ''id-search:https://a.example/story''"
proof -
  let ?W = "extractAndNormalize_worker stub_env stub_cc stub_settings ''Region'' 2 page_A 0 fresh_state"
  have o: "fst ?W = Inr item_A"
    by (simp add: extract_worker_outcome extract_outcome_def location_of_def item_A_def stub_defs
        or_string_def)
  then have w: "?W = (Inr item_A, snd ?W)"
    by (simp add: prod_eq_iff)
  have u: "ni_url item_A = ''https://a.example/story''"
    by (simp add: item_A_def toNormalizedItem_def finalUrl_def or_string_def stub_defs)
  show ?thesis
    using item_url_and_id [OF w] o u by (auto simp: stub_env_def)
qed

section \<open>Properties of the recency filter\<close>

text \<open>
  The cutoff is the reading of the clock moved back by whole days in local time: the
  offset in force now is added, the days are taken off, and the offset in force at the
  local time reached is subtracted.
\<close>

lemma cutoff_date_local:
  "cutoff_date env today daysBack = UTC env (LocalTime env today - daysBack * 86400000)"
proof -
  have "MakeDate (Day t - daysBack) (TimeWithinDay t) = t - daysBack * 86400000" for t
    by (simp add: MakeDate_def Day_def TimeWithinDay_def msPerDay_def left_diff_distrib)
  then show ?thesis by (simp add: cutoff_date_def Let_def)
qed



lemma scraped_urls_append [simp]: "scraped_urls (xs @ ys) = scraped_urls xs @ scraped_urls ys"
  by (induction xs rule: scraped_urls.induct) simp_all

lemma locate_calls [simp]:
  "scraped_urls (calls (snd (locate env cc extracted st))) = scraped_urls (calls st)"
  by (simp add: locate_def split: option.splits sum.splits)













text \<open>
  Across a change of the clocks the window is not 7 times 24 hours: in the zone of
  \<open>clock_change_env\<close> the cutoff is one hour later, and the item fetched 6 days, 23 hours
  and 30 minutes ago is not in the set.
\<close>

lemma clock_change_recent:
  "cutoff_date clock_change_env (clock clock_change_env) 7
     = clock clock_change_env - 7 * 86400000 + 3600000
   \<and> prisma_historicalItems clock_change_env
       = Inr [\<lparr> hi_url = ''https://b.example/'', hi_fetchedAt = 999397000000 \<rparr>]
   \<and> clock clock_change_env - 7 * 86400000 \<le> 999397000000
   \<and> getRecentlyScrapedUrls clock_change_env None = Inr {}"
proof -
  have c: "cutoff_date clock_change_env 1000000000000 7 = 999398800000"
    by (simp add: cutoff_date_local UTC_def LocalTime_def clock_change_env_def stub_env_def)
  have k: "clock clock_change_env = 1000000000000"
    by (simp add: clock_change_env_def stub_env_def)
  have "getRecentlyScrapedUrls clock_change_env None = Inr {}"
    using c by (simp add: getRecentlyScrapedUrls_def URL_DEDUP_DAYS_def k Let_def)
      (simp add: clock_change_env_def)
  then show ?thesis using c by (simp add: k) (simp add: clock_change_env_def)
qed




section \<open>The availability check\<close>

text \<open>
  C8. When the provider is not available, \<open>fetch\<close> returns the empty result with the
  provider's message: no item, no error, the message as explanation. No external
  operation is called (neither the generator nor any operation run through the pool), and
  the scan status module is left as it was.
\<close>

theorem fetch_unavailable_returns_empty:
  assumes "\<not> available (getBrightDataStatus env)"
  shows "fst (fetch env configName cc settings sch since st)
       = Inr (emptyResult configName (bd_message (getBrightDataStatus env)))
   \<and> items (emptyResult configName (bd_message (getBrightDataStatus env))) = []
   \<and> errors (emptyResult configName (bd_message (getBrightDataStatus env))) = []
   \<and> explanation (emptyResult configName (bd_message (getBrightDataStatus env)))
       = Some (bd_message (getBrightDataStatus env))
   \<and> calls (snd (fetch env configName cc settings sch since st)) = calls st
   \<and> tracker (snd (fetch env configName cc settings sch since st)) = tracker st
   \<and> errorList (snd (fetch env configName cc settings sch since st)) = []"
  using assms by (simp add: fetch_def emptyResult_def Let_def)

text \<open>The test environment with the provider's token missing.\<close>

theorem fetch_unavailable_returns_empty_witness:
  "\<not> available (getBrightDataStatus offline_env)
   \<and> fst (fetch offline_env ''search'' stub_cc stub_settings stub_schedules 0 fresh_state)
       = Inr \<lparr> items = [], errors = [], sourceName = ''search'',
               explanation = Some ''BrightData API token not configured'' \<rparr>
   \<and> calls (snd (fetch offline_env ''search'' stub_cc stub_settings stub_schedules 0 fresh_state)) = []
   \<and> tracker (snd (fetch offline_env ''search'' stub_cc stub_settings stub_schedules 0 fresh_state))
       = initialTracker"
proof -
  have off: "\<not> available (getBrightDataStatus offline_env)"
    by (simp add: offline_env_def)
  show ?thesis
    using off fetch_unavailable_returns_empty [OF off, of "''search''" stub_cc stub_settings
        stub_schedules 0 fresh_state]
    by (simp add: emptyResult_def offline_env_def fresh_state_def)
qed

section \<open>A run of the pipeline\<close>

text \<open>
  The pipeline in the test environment: two queries and one direct URL; the searches give
  three candidates, one of them the direct URL again; one candidate was scraped recently;
  the two others are selected and scraped, and the extraction of one of them returns
  \<open>null\<close>. The run returns one item and one error, leaves the status of the region at
  the end of the fetching phase, and has called the external operations in this order.
\<close>

lemma fetch_example:
  "fst (fetch stub_env ''search'' stub_cc stub_settings stub_schedules 0 fresh_state)
     = Inr \<lparr> items = [item_A],
             errors = [\<lparr> err_source = ''Extract'',
                        err_message = ''Failed to extract: https://b.example - Extraction returned null'',
                        err_timestamp = 1000000000000 \<rparr>],
             sourceName = ''search'', explanation = None \<rparr>"
  by code_simp

lemma fetch_example_status:
  "currentStatus (tracker (snd (fetch stub_env ''search'' stub_cc stub_settings stub_schedules 0 fresh_state)))
     = \<lparr> phase = Fetching, message = ''1 items extracted'', progress = Some 50,
         startedAt = None, completedAt = None, error = None, itemCount = None \<rparr>"
  by code_simp

lemma fetch_example_calls:
  "calls (snd (fetch stub_env ''search'' stub_cc stub_settings stub_schedules 0 fresh_state))
     = [CallGenerate, CallSerp ''local events'', CallSerp ''local news'', CallHistory, CallSelect,
        CallScrape ''https://b.example'', CallScrape ''https://a.example/'',
        CallExtract ''https://a.example/'', CallExtract ''https://b.example'']"
  by code_simp

end
